theory Spec2Isabelle
  imports Main "HOL-Library.Multiset" "HOL-Library.List_Lexorder" "HOL-Library.Char_ord"
begin

section \<open>Go primitives used by the client\<close>

text \<open>
  Go's \<^verbatim>\<open>int64\<close> is modelled as \<open>int\<close> with the two's complement wrap-around written
  out: \<open>i64\<close> brings a mathematical result back into the range \<open>[-2^63, 2^63)\<close>, as
  the hardware does after \<^verbatim>\<open>+\<close>, \<^verbatim>\<open>-\<close> and \<^verbatim>\<open>*\<close>.
\<close>

definition i64 :: "int \<Rightarrow> int" where
  "i64 x = (x + 2 ^ 63) mod 2 ^ 64 - 2 ^ 63"

text \<open>
  Go's integer division \<^verbatim>\<open>a / b\<close> truncates towards zero (HOL's \<open>div\<close> rounds towards
  minus infinity). Go panics on a zero divisor: where the source divides by a variable,
  the model returns the panic before it comes to \<open>quot\<close>.
\<close>

definition quot :: "int \<Rightarrow> int \<Rightarrow> int" where
  "quot a b = (if (a < 0) = (b < 0) then \<bar>a\<bar> div \<bar>b\<bar> else - (\<bar>a\<bar> div \<bar>b\<bar>))"

text \<open>\<^verbatim>\<open>strconv.FormatInt(n, 10)\<close>: the decimal digits, with a leading minus sign.\<close>

fun format_nat :: "nat \<Rightarrow> string" where
  "format_nat n =
     (if n < 10 then [''0123456789'' ! n]
      else format_nat (n div 10) @ [''0123456789'' ! (n mod 10)])"

declare format_nat.simps [simp del]

definition FormatInt :: "int \<Rightarrow> string" where
  "FormatInt n = (if n < 0 then CHR ''-'' # format_nat (nat (- n)) else format_nat (nat n))"

section \<open>HTTP responses and errors\<close>

record response =
  StatusCode :: int
  Body :: string

text \<open>
  The errors the client returns. The first three are the \<^verbatim>\<open>fmt.Errorf\<close> values of
  \<^verbatim>\<open>checkResponseError\<close> with their status code and body; the others stand for
  the errors of the callees (\<^verbatim>\<open>errors.New\<close> in \<^verbatim>\<open>Read\<close>, \<^verbatim>\<open>http.NewRequest\<close>,
  \<^verbatim>\<open>httpClient.Do\<close> and \<^verbatim>\<open>http.Get\<close>, the JSON decoder, the \<^verbatim>\<open>os\<close> calls).
\<close>

datatype error =
    ServerError int string
  | ClientError int string
  | UnexpectedStatus int string
  | NoPath
  | RequestError string
  | TransportError string
  | DecodeError string
  | FileError string

text \<open>\<^verbatim>\<open>checkResponseError(resp, statusCode)\<close>; \<open>None\<close> is Go's \<^verbatim>\<open>nil\<close>.\<close>

definition checkResponseError :: "response \<Rightarrow> int \<Rightarrow> error option" where
  "checkResponseError resp statusCode =
     (if StatusCode resp \<ge> 500 then Some (ServerError (StatusCode resp) (Body resp))
      else if StatusCode resp \<ge> 400 then Some (ClientError (StatusCode resp) (Body resp))
      else if StatusCode resp \<noteq> statusCode then
        Some (UnexpectedStatus (StatusCode resp) (Body resp))
      else None)"

section \<open>The world outside the client\<close>

text \<open>
  A request to a storage device, as \<^verbatim>\<open>write\<close> builds it: method, URL, the headers
  in the order they are added, and the bytes the HTTP client reads from the body reader.
\<close>

record request =
  Method :: string
  URL :: string
  Header :: "(string \<times> string) list"
  ReqBody :: string

text \<open>
  A request to the tracker, as \<^verbatim>\<open>request\<close> builds it from its arguments: the method,
  the path joined to the tracker URL, and the form values in the order they are added
  (the query string of a GET, the body of a POST).
\<close>

record call =
  CallMethod :: string
  CallPath :: string
  CallParams :: "(string \<times> string) list"

record CreateOpen =
  Path :: string
  Fid :: int
  Devid :: int

text \<open>An open file: the bytes a reader gets from it, and what \<^verbatim>\<open>Stat\<close> answers.\<close>

record open_file =
  Contents :: string
  StatSize :: "error + int"

text \<open>
  Everything the client talks to. Each field answers one library call of the source;
  an \<open>Inl\<close> is the call's error.
  \<^item> \<open>parses\<close>: \<^verbatim>\<open>http.NewRequest\<close> accepts the URL of a chunk request;
  \<^item> \<open>device\<close>: \<^verbatim>\<open>httpClient.Do\<close> on chunk request number \<open>i\<close> of a session. A
    response with status 200 is the acknowledgement of the whole body; when the exchange
    fails or the device answers with another status, \<open>read_before_failure i\<close> bytes of
    the body had been read (at most the body);
  \<^item> \<open>tracker\<close>: \<^verbatim>\<open>http.NewRequest\<close> and \<^verbatim>\<open>httpClient.Do\<close> on a tracker request;
  \<^item> \<open>http_Get\<close>: \<^verbatim>\<open>http.Get\<close>;
  \<^item> \<open>decode_CreateOpen\<close>, \<open>decode_GetPaths\<close>: the JSON decoder on a response body;
  \<^item> \<open>os_Open\<close>, \<open>os_Create\<close>, \<open>io_Copy\<close>, \<open>Close\<close>: the file system; \<open>stdin\<close> is the
    standard input's content.
\<close>

record world =
  parses :: "string \<Rightarrow> bool"
  device :: "nat \<Rightarrow> request \<Rightarrow> error + response"
  read_before_failure :: "nat \<Rightarrow> nat"
  tracker :: "call \<Rightarrow> error + response"
  http_Get :: "string \<Rightarrow> error + response"
  decode_CreateOpen :: "string \<Rightarrow> error + CreateOpen"
  decode_GetPaths :: "string \<Rightarrow> error + string list"
  os_Open :: "string \<Rightarrow> error + open_file"
  stdin :: string
  os_Create :: "string \<Rightarrow> error option"
  io_Copy :: "string \<Rightarrow> string \<Rightarrow> error option"
  Close :: "string \<Rightarrow> error option"

text \<open>The client: of its configuration only the chunk size is read here.\<close>

record Client =
  ChunkSize :: int

text \<open>
  What an operation did, in order: the tracker requests, the chunk requests and the
  fetch it issued, and what it did to the destination (\<open>''-''\<close> is standard output).
\<close>

datatype event =
    TrackerCall call
  | Patch request
  | Get string
  | CreateFile string
  | CopyTo string string
  | CloseFile string

section \<open>Requests to the tracker\<close>

text \<open>
  \<^verbatim>\<open>request(method, urlPath, params, statusCode, response)\<close>. The result is the request
  handed to the tracker, as an event, and the body of a response that passed the status
  check, or the error; the callers that pass a non-nil \<^verbatim>\<open>response\<close> decode the body.
\<close>

definition request :: "world \<Rightarrow> string \<Rightarrow> string \<Rightarrow> (string \<times> string) list \<Rightarrow> int \<Rightarrow>
    event list \<times> (error + string)" where
  "request w method urlPath params statusCode =
     (let cl = \<lparr>CallMethod = method, CallPath = urlPath, CallParams = params\<rparr> in
      ([TrackerCall cl],
       (case tracker w cl of
          Inl err \<Rightarrow> Inl err
        | Inr resp \<Rightarrow>
            (case checkResponseError resp statusCode of
               Some err \<Rightarrow> Inl err
             | None \<Rightarrow> Inr (Body resp)))))"

text \<open>\<^verbatim>\<open>createOpen(size)\<close>: the events and the decoded response or the error.\<close>

definition createOpen :: "world \<Rightarrow> int \<Rightarrow> event list \<times> (error + CreateOpen)" where
  "createOpen w sz =
     (case request w ''POST'' ''create-open''
             (if sz > -1 then [(''size'', FormatInt sz)] else []) 200 of
        (evs, Inl err) \<Rightarrow> (evs, Inl err)
      | (evs, Inr body) \<Rightarrow> (evs, decode_CreateOpen w body))"

text \<open>\<^verbatim>\<open>createClose(key, size, fid, devid)\<close>: the events and the returned error.\<close>

definition createClose :: "world \<Rightarrow> string \<Rightarrow> int \<Rightarrow> int \<Rightarrow> int \<Rightarrow> event list \<times> error option" where
  "createClose w key sz fid devid =
     (case request w ''POST'' ''create-close''
             [(''key'', key), (''size'', FormatInt sz),
              (''fid'', FormatInt fid), (''devid'', FormatInt devid)] 200 of
        (evs, Inl err) \<Rightarrow> (evs, Some err)
      | (evs, Inr body) \<Rightarrow> (evs, None))"

text \<open>\<^verbatim>\<open>getPaths(key)\<close>: the events and the decoded paths or the error.\<close>

definition getPaths :: "world \<Rightarrow> string \<Rightarrow> event list \<times> (error + string list)" where
  "getPaths w key =
     (case request w ''GET'' ''get-paths'' [(''key'', key)] 200 of
        (evs, Inl err) \<Rightarrow> (evs, Inl err)
      | (evs, Inr body) \<Rightarrow> (evs, decode_GetPaths w body))"

section \<open>The chunk loop\<close>

text \<open>
  Modelled from the spec: \<^verbatim>\<open>newReadCounter\<close> and the type it returns are not among the
  sources. The spec describes the running byte offset of a session as a counter wrapped
  around the input source: \<open>Count\<close> is the number of bytes read through the wrapper so
  far (returned as an \<^verbatim>\<open>int64\<close>; no input reaches \<open>2^63\<close> bytes), \<open>Unread\<close> what the
  source still holds.
\<close>

record readCounter =
  Unread :: string
  Count :: int

definition newReadCounter :: "string \<Rightarrow> readCounter" where
  "newReadCounter r = \<lparr>Unread = r, Count = 0\<rparr>"

definition read_bytes :: "nat \<Rightarrow> readCounter \<Rightarrow> readCounter" where
  "read_bytes k rc =
     \<lparr>Unread = drop k (Unread rc), Count = Count rc + int (min k (length (Unread rc)))\<rparr>"

text \<open>
  The request of one iteration: \<^verbatim>\<open>io.LimitReader(rc, ChunkSize)\<close> yields the next
  \<open>ChunkSize\<close> unread bytes, fewer at the end of the input, none when the limit is not
  positive.
\<close>

definition chunk_request :: "Client \<Rightarrow> string \<Rightarrow> int \<Rightarrow> readCounter \<Rightarrow> request" where
  "chunk_request c path sz rc =
     \<lparr>Method = ''PATCH'', URL = path,
      Header = (''efes-file-offset'', FormatInt (Count rc)) #
               (if sz > -1 then [(''efes-file-length'', FormatInt sz)] else []),
      ReqBody = take (nat (ChunkSize c)) (Unread rc)\<rparr>"

text \<open>
  \<^verbatim>\<open>write(path, size, r)\<close> (\<open>client_write\<close> below): the \<^verbatim>\<open>for i := 0; ; i++\<close> loop, started at iteration \<open>i\<close>
  with the counter \<open>rc\<close>. The loop has no bound of its own, so the model takes the
  number of iterations it may run: the result is the requests issued, and \<open>Some\<close> of
  the returned pair (byte count, error) when the loop returned within that many
  iterations, \<open>None\<close> when it is still running.
\<close>

fun write_loop :: "nat \<Rightarrow> world \<Rightarrow> Client \<Rightarrow> string \<Rightarrow> int \<Rightarrow> nat \<Rightarrow> readCounter \<Rightarrow>
    request list \<times> (int \<times> error option) option" where
  "write_loop 0 w c path sz i rc = ([], None)"
| "write_loop (Suc fuel) w c path sz i rc =
     (if \<not> parses w path then ([], Some (Count rc, Some (RequestError path)))
      else
        let req = chunk_request c path sz rc in
        (case device w i req of
           Inl err \<Rightarrow>
             ([req], Some (Count (read_bytes (min (read_before_failure w i) (length (ReqBody req))) rc),
                           Some err))
         | Inr resp \<Rightarrow>
             let rc' = read_bytes (length (ReqBody req)) rc in
             (case checkResponseError resp 200 of
                Some err \<Rightarrow>
                  ([req], Some (Count (read_bytes (min (read_before_failure w i) (length (ReqBody req))) rc),
                                Some err))
              | None \<Rightarrow>
                  if sz > -1 \<and> Count rc' \<ge> sz then ([req], Some (Count rc', None))
                  else
                    (case write_loop fuel w c path sz (Suc i) rc' of
                       (reqs, r) \<Rightarrow> (req # reqs, r)))))"

definition client_write :: "nat \<Rightarrow> world \<Rightarrow> Client \<Rightarrow> string \<Rightarrow> int \<Rightarrow> string \<Rightarrow>
    request list \<times> (int \<times> error option) option" where
  "client_write fuel w c path sz r = write_loop fuel w c path sz 0 (newReadCounter r)"

section \<open>Write and Read\<close>

text \<open>
  The first part of \<^verbatim>\<open>Write\<close>: the reader and the size it declares. Standard input has
  the size -1; a file has the size \<^verbatim>\<open>Stat\<close> reports.
\<close>

definition open_source :: "world \<Rightarrow> string \<Rightarrow> error + (string \<times> int)" where
  "open_source w path =
     (if path = ''-'' then Inr (stdin w, - 1)
      else (case os_Open w path of
              Inl err \<Rightarrow> Inl err
            | Inr f \<Rightarrow> (case StatSize f of
                         Inl err \<Rightarrow> Inl err
                       | Inr sz \<Rightarrow> Inr (Contents f, sz))))"

text \<open>
  \<^verbatim>\<open>Write(key, path)\<close>. The result is the events of its callees, in order, and \<open>Some\<close>
  of the returned error (\<open>Some None\<close> is a nil error), or \<open>None\<close> when the chunk loop
  is still running after \<open>fuel\<close> iterations.
\<close>

definition Write :: "nat \<Rightarrow> world \<Rightarrow> Client \<Rightarrow> string \<Rightarrow> string \<Rightarrow> event list \<times> error option option" where
  "Write fuel w c key path =
     (case open_source w path of
        Inl err \<Rightarrow> ([], Some (Some err))
      | Inr (f, sz) \<Rightarrow>
          (case createOpen w sz of
             (evs, Inl err) \<Rightarrow> (evs, Some (Some err))
           | (evs, Inr opened) \<Rightarrow>
               (case client_write fuel w c (Path opened) sz f of
                  (reqs, None) \<Rightarrow> (evs @ map Patch reqs, None)
                | (reqs, Some (n, Some err)) \<Rightarrow> (evs @ map Patch reqs, Some (Some err))
                | (reqs, Some (n, None)) \<Rightarrow>
                    (case createClose w key n (Fid opened) (Devid opened) of
                       (evs', r) \<Rightarrow> (evs @ map Patch reqs @ evs', Some r)))))"

text \<open>\<^verbatim>\<open>Read(key, path)\<close>: the events and the returned error.\<close>

definition Read :: "world \<Rightarrow> string \<Rightarrow> string \<Rightarrow> event list \<times> error option" where
  "Read w key path =
     (case getPaths w key of
        (evs, Inl err) \<Rightarrow> (evs, Some err)
      | (evs, Inr paths) \<Rightarrow>
          (case paths of
             [] \<Rightarrow> (evs, Some NoPath)
           | p # ps \<Rightarrow>
               (case http_Get w p of
                  Inl err \<Rightarrow> (evs @ [Get p], Some err)
                | Inr resp \<Rightarrow>
                    (case checkResponseError resp 200 of
                       Some err \<Rightarrow> (evs @ [Get p], Some err)
                     | None \<Rightarrow>
                         (case (if path = ''-'' then None else os_Create w path) of
                            Some err \<Rightarrow> (evs @ [Get p, CreateFile path], Some err)
                          | None \<Rightarrow>
                              (case io_Copy w path (Body resp) of
                                 Some err \<Rightarrow>
                                   (evs @ [Get p] @
                                    (if path = ''-'' then [] else [CreateFile path]) @
                                    [CopyTo path (Body resp), CloseFile path], Some err)
                               | None \<Rightarrow>
                                   (evs @ [Get p] @
                                    (if path = ''-'' then [] else [CreateFile path]) @
                                    [CopyTo path (Body resp), CloseFile path], Close w path)))))))"

section \<open>Notions used to state the properties\<close>

text \<open>
  The tracker requests of \<^verbatim>\<open>createOpen(size)\<close>, \<^verbatim>\<open>createClose(key, size, fid, devid)\<close>
  and \<^verbatim>\<open>getPaths(key)\<close>, written out, and what a tracker request returns: the error of
  the exchange, or else that of the status check against 200.
\<close>

definition createOpen_call :: "int \<Rightarrow> call" where
  "createOpen_call sz =
     \<lparr>CallMethod = ''POST'', CallPath = ''create-open'',
      CallParams = (if sz > -1 then [(''size'', FormatInt sz)] else [])\<rparr>"

definition createClose_call :: "string \<Rightarrow> int \<Rightarrow> int \<Rightarrow> int \<Rightarrow> call" where
  "createClose_call key sz fid devid =
     \<lparr>CallMethod = ''POST'', CallPath = ''create-close'',
      CallParams = [(''key'', key), (''size'', FormatInt sz),
                    (''fid'', FormatInt fid), (''devid'', FormatInt devid)]\<rparr>"

definition getPaths_call :: "string \<Rightarrow> call" where
  "getPaths_call key = \<lparr>CallMethod = ''GET'', CallPath = ''get-paths'', CallParams = [(''key'', key)]\<rparr>"

definition call_error :: "world \<Rightarrow> call \<Rightarrow> error option" where
  "call_error w cl =
     (case tracker w cl of Inl err \<Rightarrow> Some err | Inr resp \<Rightarrow> checkResponseError resp 200)"

text \<open>
  The error of chunk request number \<open>i\<close>, as the loop computes it: the error of
  \<^verbatim>\<open>httpClient.Do\<close>, or else that of the status check against 200.
\<close>

definition chunk_error :: "world \<Rightarrow> nat \<Rightarrow> request \<Rightarrow> error option" where
  "chunk_error w i req =
     (case device w i req of Inl err \<Rightarrow> Some err | Inr resp \<Rightarrow> checkResponseError resp 200)"

text \<open>A device that acknowledges every chunk request with status 200.\<close>

definition acknowledges :: "world \<Rightarrow> bool" where
  "acknowledges w = (\<forall>i r. chunk_error w i r = None)"

text \<open>The read counter after the body of one chunk request has been read in full.\<close>

definition after_chunk :: "Client \<Rightarrow> readCounter \<Rightarrow> readCounter" where
  "after_chunk c rc =
     \<lparr>Unread = drop (nat (ChunkSize c)) (Unread rc),
      Count = Count rc + int (length (take (nat (ChunkSize c)) (Unread rc)))\<rparr>"

text \<open>The byte count the loop returns with the error of chunk request \<open>i\<close>.\<close>

definition count_on_error :: "world \<Rightarrow> Client \<Rightarrow> string \<Rightarrow> int \<Rightarrow> nat \<Rightarrow> readCounter \<Rightarrow> int" where
  "count_on_error w c path sz i rc =
     Count (read_bytes (min (read_before_failure w i)
              (length (ReqBody (chunk_request c path sz rc)))) rc)"

text \<open>The chunk requests among the events, and the commits (create-close requests).\<close>

fun patches :: "event list \<Rightarrow> request list" where
  "patches [] = []"
| "patches (Patch r # evs) = r # patches evs"
| "patches (ev # evs) = patches evs"

fun commits :: "event list \<Rightarrow> call list" where
  "commits [] = []"
| "commits (TrackerCall cl # evs) =
     (if CallPath cl = ''create-close'' then cl # commits evs else commits evs)"
| "commits (ev # evs) = commits evs"

text \<open>The events that create, write or close the destination of a read.\<close>

fun touches_destination :: "event \<Rightarrow> bool" where
  "touches_destination (CreateFile p) = True"
| "touches_destination (CopyTo p b) = True"
| "touches_destination (CloseFile p) = True"
| "touches_destination ev = False"

text \<open>
  The tracker returned a non-empty path list for the key and the fetch of its first path
  passed the check against status 200.
\<close>

definition fetch_checked :: "world \<Rightarrow> string \<Rightarrow> bool" where
  "fetch_checked w key =
     (case snd (getPaths w key) of
        Inl err \<Rightarrow> False
      | Inr [] \<Rightarrow> False
      | Inr (u # ps) \<Rightarrow>
          (case http_Get w u of Inl err \<Rightarrow> False | Inr resp \<Rightarrow> StatusCode resp = 200))"

text \<open>The reservation of the concrete runs: file 42 on device 1.\<close>

definition reserved :: CreateOpen where
  "reserved = \<lparr>Path = ''/dev1/42'', Fid = 42, Devid = 1\<rparr>"

text \<open>
  A world for concrete runs: every URL parses, the device and the tracker answer 200,
  create-open returns that reservation, the file to upload holds five bytes of
  which \<^verbatim>\<open>Stat\<close> reports three, standard input holds three bytes, and the file
  system never fails.
\<close>

definition acking_world :: world where
  "acking_world =
     \<lparr>parses = (\<lambda>u. True),
      device = (\<lambda>i r. Inr \<lparr>StatusCode = 200, Body = []\<rparr>),
      read_before_failure = (\<lambda>i. 0),
      tracker = (\<lambda>cl. Inr \<lparr>StatusCode = 200, Body = ''{}''\<rparr>),
      http_Get = (\<lambda>u. Inr \<lparr>StatusCode = 200, Body = ''data''\<rparr>),
      decode_CreateOpen = (\<lambda>b. Inr reserved),
      decode_GetPaths = (\<lambda>b. Inr [''/dev1/42'']),
      os_Open = (\<lambda>p. Inr \<lparr>Contents = ''abcde'', StatSize = Inr 3\<rparr>),
      stdin = ''abc'',
      os_Create = (\<lambda>p. None),
      io_Copy = (\<lambda>p b. None),
      Close = (\<lambda>p. None)\<rparr>"

text \<open>The same world with a storage device that answers every fetch with 404.\<close>

definition missing_world :: world where
  "missing_world = acking_world\<lparr>http_Get := (\<lambda>u. Inr \<lparr>StatusCode = 404, Body = ''gone''\<rparr>)\<rparr>"

text \<open>The same world with a device that refuses the second chunk with 507.\<close>

definition full_world :: world where
  "full_world =
     acking_world\<lparr>device := (\<lambda>i r. Inr \<lparr>StatusCode = (if i = 1 then 507 else 200), Body = ''full''\<rparr>)\<rparr>"

text \<open>The same world with a tracker that refuses every commit with 500.\<close>

definition refusing_world :: world where
  "refusing_world =
     acking_world\<lparr>tracker := (\<lambda>cl. if CallPath cl = ''create-close''
                                     then Inr \<lparr>StatusCode = 500, Body = ''no''\<rparr>
                                     else Inr \<lparr>StatusCode = 200, Body = ''{}''\<rparr>)\<rparr>"

text \<open>The same world where no chunk request can be built: the path does not parse.\<close>

definition unparsed_world :: world where
  "unparsed_world = acking_world\<lparr>parses := (\<lambda>u. False)\<rparr>"

section \<open>The status view\<close>

text \<open>
  Modelled from the spec: the declarations of \<^verbatim>\<open>Host\<close> and \<^verbatim>\<open>Device\<close> are not among
  the sources. The spec gives a host an identifier, a name and a status, and a device
  an identifier, the identifier of its host, a status, total, used and free capacity in
  bytes and an I/O utilisation, each possibly absent, and a last-update time; the
  field names and types are those the status view reads (\<^verbatim>\<open>*int64\<close> is an optional
  \<open>int\<close>, \<^verbatim>\<open>UpdatedAt\<close> is Unix seconds).
\<close>

record Host =
  Hostid :: int
  Hostname :: string
  Status :: string

record Device =
  Devid :: int
  Hostid :: int
  Status :: string
  BytesTotal :: "int option"
  BytesUsed :: "int option"
  BytesFree :: "int option"
  IoUtilization :: "int option"
  UpdatedAt :: int

record deviceStatus =
  Device :: Device
  Hostname :: string
  HostStatus :: string
  UpdatedAt :: int

record efesStatus =
  devices :: "deviceStatus list"

text \<open>
  What \<^verbatim>\<open>Print\<close> takes from outside this file: the constant \<^verbatim>\<open>G\<close> (its declaration is
  not among the sources; a Go constant divisor is not zero), \<^verbatim>\<open>humanize.Comma\<close>, and
  the rendering of the time since a device's last update
  (\<^verbatim>\<open>now.Sub(d.UpdatedAt).Truncate(time.Second).String()\<close>) from its update time.
\<close>

record printer =
  G :: int
  Comma :: "int \<Rightarrow> string"
  Since :: "int \<Rightarrow> string"

text \<open>Go panics on an integer division by zero.\<close>

datatype panic = DivideByZero

definition Size :: "printer \<Rightarrow> deviceStatus \<Rightarrow> string" where
  "Size pr d =
     (case BytesTotal (Device d) of None \<Rightarrow> [] | Some t \<Rightarrow> Comma pr (i64 (quot t (G pr))))"

definition Used :: "printer \<Rightarrow> deviceStatus \<Rightarrow> string" where
  "Used pr d =
     (case BytesUsed (Device d) of None \<Rightarrow> [] | Some u \<Rightarrow> Comma pr (i64 (quot u (G pr))))"

definition Free :: "printer \<Rightarrow> deviceStatus \<Rightarrow> string" where
  "Free pr d =
     (case BytesFree (Device d) of None \<Rightarrow> [] | Some f \<Rightarrow> Comma pr (i64 (quot f (G pr))))"

definition Use :: "deviceStatus \<Rightarrow> panic + string" where
  "Use d =
     (case BytesUsed (Device d) of
        None \<Rightarrow> Inr []
      | Some u \<Rightarrow>
          (case BytesTotal (Device d) of
             None \<Rightarrow> Inr []
           | Some t \<Rightarrow>
               if t = 0 then Inl DivideByZero
               else Inr (FormatInt (i64 (quot (i64 (u * 100)) t)))))"

definition IO :: "deviceStatus \<Rightarrow> string" where
  "IO d = (case IoUtilization (Device d) of None \<Rightarrow> [] | Some io \<Rightarrow> FormatInt io)"

text \<open>The first loop of \<^verbatim>\<open>Print\<close>: the pair (totalUsed, totalSize) after the devices.\<close>

definition sum_totals :: "deviceStatus list \<Rightarrow> int \<times> int" where
  "sum_totals ds =
     foldl (\<lambda>(totalUsed, totalSize) d.
              ((case BytesUsed (Device d) of None \<Rightarrow> totalUsed | Some u \<Rightarrow> i64 (totalUsed + u)),
               (case BytesTotal (Device d) of None \<Rightarrow> totalSize | Some t \<Rightarrow> i64 (totalSize + t))))
       (0, 0) ds"

text \<open>One row of the table; \<^verbatim>\<open>d.Use()\<close> may panic.\<close>

definition row :: "printer \<Rightarrow> deviceStatus \<Rightarrow> panic + string list" where
  "row pr d =
     (case Use d of
        Inl p \<Rightarrow> Inl p
      | Inr use \<Rightarrow>
          Inr [Hostname d, HostStatus d, FormatInt (Devid (Device d)), Status (Device d),
               Size pr d, Used pr d, Free pr d, use, IO d, Since pr (UpdatedAt d)])"

text \<open>The second loop of \<^verbatim>\<open>Print\<close>: the rows, up to the first panic.\<close>

fun table_rows :: "printer \<Rightarrow> deviceStatus list \<Rightarrow> panic + string list list" where
  "table_rows pr [] = Inr []"
| "table_rows pr (d # ds) =
     (case row pr d of
        Inl p \<Rightarrow> Inl p
      | Inr r \<Rightarrow> (case table_rows pr ds of Inl p \<Rightarrow> Inl p | Inr rs \<Rightarrow> Inr (r # rs)))"

record table =
  Heading :: "string list"
  Footer :: "string list"
  Rows :: "string list list"

text \<open>
  The footer \<^verbatim>\<open>Print\<close> computes from the pair (totalUsed, totalSize) of its first loop:
  the free bytes, the usage percentage, and the conversion to \<^verbatim>\<open>G\<close>.
\<close>

definition table_footer :: "printer \<Rightarrow> int \<times> int \<Rightarrow> string list" where
  "table_footer pr totals =
     (case totals of
        (totalUsed, totalSize) \<Rightarrow>
          let totalFree = i64 (totalSize - totalUsed);
              totalUse = (if totalSize = 0 then 0 else i64 (quot (i64 (100 * totalUsed)) totalSize));
              totalUsed' = i64 (quot totalUsed (G pr));
              totalFree' = i64 (quot totalFree (G pr));
              totalSize' = i64 (quot totalSize (G pr))
          in [[], [], [], ''Total:'', Comma pr totalSize', Comma pr totalUsed',
              Comma pr totalFree', FormatInt totalUse, [], []])"

text \<open>
  \<^verbatim>\<open>Print()\<close>: the table handed to the renderer, or the panic that ends the call before
  anything is rendered.
\<close>

definition Print :: "printer \<Rightarrow> efesStatus \<Rightarrow> panic + table" where
  "Print pr s =
     (let footer = table_footer pr (sum_totals (devices s)) in
      case table_rows pr (devices s) of
        Inl p \<Rightarrow> Inl p
      | Inr data \<Rightarrow>
          Inr \<lparr>Heading = [''Host'', ''Status'', ''Device'', ''Status'', ''Size (G)'',
                          ''Used (G)'', ''Free (G)'', ''Use %'', ''IO %'', ''Last update''],
               Footer = footer,
               Rows = data\<rparr>)"

text \<open>
  What \<^verbatim>\<open>Status\<close> gets from the tracker: the results of its two requests, get-devices
  and get-hosts (a decoded response, or the error of \<^verbatim>\<open>request\<close>).
\<close>

record registry =
  get_devices :: "error + Device list"
  get_hosts :: "error + Host list"

text \<open>
  The \<^verbatim>\<open>Less\<close> methods of the sort types \<^verbatim>\<open>byHostname\<close>, \<^verbatim>\<open>byDevID\<close>, \<^verbatim>\<open>bySize\<close>,
  \<^verbatim>\<open>byUsed\<close> and \<^verbatim>\<open>byFree\<close>. Their declarations are not among the sources, so
  \<^verbatim>\<open>Status\<close> takes them as they are.
\<close>

record comparators =
  byHostname :: "deviceStatus \<Rightarrow> deviceStatus \<Rightarrow> bool"
  byDevID :: "deviceStatus \<Rightarrow> deviceStatus \<Rightarrow> bool"
  bySize :: "deviceStatus \<Rightarrow> deviceStatus \<Rightarrow> bool"
  byUsed :: "deviceStatus \<Rightarrow> deviceStatus \<Rightarrow> bool"
  byFree :: "deviceStatus \<Rightarrow> deviceStatus \<Rightarrow> bool"

text \<open>
  \<^verbatim>\<open>sort.Sort\<close> of Go's library, which promises an ascending order by \<^verbatim>\<open>Less\<close> and no
  more (the order of elements that compare equal is not fixed): here an insertion sort.
\<close>

fun insert_by :: "('a \<Rightarrow> 'a \<Rightarrow> bool) \<Rightarrow> 'a \<Rightarrow> 'a list \<Rightarrow> 'a list" where
  "insert_by lt x [] = [x]"
| "insert_by lt x (y # ys) = (if lt y x then y # insert_by lt x ys else x # y # ys)"

definition sort_Sort :: "('a \<Rightarrow> 'a \<Rightarrow> bool) \<Rightarrow> 'a list \<Rightarrow> 'a list" where
  "sort_Sort lt xs = foldr (insert_by lt) xs []"

text \<open>The map \<^verbatim>\<open>hostsByID\<close>: a later host with the same identifier replaces an earlier one.\<close>

definition hostsByID :: "Host list \<Rightarrow> (int \<rightharpoonup> Host)" where
  "hostsByID hosts = foldl (\<lambda>m h. m(Host.Hostid h \<mapsto> h)) Map.empty hosts"

text \<open>The record built for one device that is not dead.\<close>

definition join_host :: "(int \<rightharpoonup> Host) \<Rightarrow> Device \<Rightarrow> deviceStatus" where
  "join_host byID d =
     (case byID (Hostid d) of
        Some h \<Rightarrow> \<lparr>Device = d, Hostname = Host.Hostname h, HostStatus = Host.Status h,
                   UpdatedAt = Device.UpdatedAt d\<rparr>
      | None \<Rightarrow> \<lparr>Device = d, Hostname = [], HostStatus = [], UpdatedAt = Device.UpdatedAt d\<rparr>)"

text \<open>The loop over \<^verbatim>\<open>devices.Devices\<close>, which skips the dead ones.\<close>

definition live_devices :: "(int \<rightharpoonup> Host) \<Rightarrow> Device list \<Rightarrow> deviceStatus list" where
  "live_devices byID devs =
     foldl (\<lambda>ret d. if Status d = ''dead'' then ret else ret @ [join_host byID d]) [] devs"

text \<open>
  \<^verbatim>\<open>Status(sortBy)\<close>: the warnings logged, and the error or the status returned.
\<close>

definition Client_Status :: "registry \<Rightarrow> comparators \<Rightarrow> string \<Rightarrow> string list \<times> (error + efesStatus)" where
  "Client_Status reg cmp sortBy =
     (case get_devices reg of
        Inl err \<Rightarrow> ([], Inl err)
      | Inr devs \<Rightarrow>
          (case get_hosts reg of
             Inl err \<Rightarrow> ([], Inl err)
           | Inr hosts \<Rightarrow>
               let ret = live_devices (hostsByID hosts) devs in
               if sortBy = ''host'' then ([], Inr \<lparr>devices = sort_Sort (byHostname cmp) ret\<rparr>)
               else if sortBy = ''device'' then ([], Inr \<lparr>devices = sort_Sort (byDevID cmp) ret\<rparr>)
               else if sortBy = ''size'' then ([], Inr \<lparr>devices = sort_Sort (bySize cmp) ret\<rparr>)
               else if sortBy = ''used'' then ([], Inr \<lparr>devices = sort_Sort (byUsed cmp) ret\<rparr>)
               else if sortBy = ''free'' then ([], Inr \<lparr>devices = sort_Sort (byFree cmp) ret\<rparr>)
               else ([''Sort key is not valid: '' @ sortBy], Inr \<lparr>devices = ret\<rparr>)))"

section \<open>Notions used to state the properties of the status view\<close>

text \<open>The byte counts that are present, in the order of the devices.\<close>

definition used_bytes :: "deviceStatus list \<Rightarrow> int list" where
  "used_bytes ds = List.map_filter (\<lambda>d. BytesUsed (Device d)) ds"

definition total_bytes :: "deviceStatus list \<Rightarrow> int list" where
  "total_bytes ds = List.map_filter (\<lambda>d. BytesTotal (Device d)) ds"

text \<open>The devices of an inventory that are not dead.\<close>

definition not_dead :: "Device list \<Rightarrow> Device list" where
  "not_dead devs = filter (\<lambda>d. Status d \<noteq> ''dead'') devs"

text \<open>
  The non-dead devices of an inventory, in its order, each joined with its host: the
  natural order of the status view.
\<close>

definition natural_order :: "Host list \<Rightarrow> Device list \<Rightarrow> deviceStatus list" where
  "natural_order hosts devs = map (join_host (hostsByID hosts)) (not_dead devs)"

text \<open>The sort keys \<^verbatim>\<open>Status\<close> knows, and the comparator it uses for each.\<close>

definition sort_keys :: "string list" where
  "sort_keys = [''host'', ''device'', ''size'', ''used'', ''free'']"

definition comparator_for :: "comparators \<Rightarrow> string \<Rightarrow> deviceStatus \<Rightarrow> deviceStatus \<Rightarrow> bool" where
  "comparator_for cmp key =
     (if key = ''host'' then byHostname cmp
      else if key = ''device'' then byDevID cmp
      else if key = ''size'' then bySize cmp
      else if key = ''used'' then byUsed cmp
      else byFree cmp)"

text \<open>
  What \<^verbatim>\<open>sort.Sort\<close> asks of a \<^verbatim>\<open>Less\<close> method: a strict weak order (asymmetric, and
  with a transitive "not less").
\<close>

definition strict_weak_order :: "('a \<Rightarrow> 'a \<Rightarrow> bool) \<Rightarrow> bool" where
  "strict_weak_order lt =
     ((\<forall>a b. lt a b \<longrightarrow> \<not> lt b a) \<and> (\<forall>a b c. lt a c \<longrightarrow> lt a b \<or> lt b c))"

text \<open>
  A printer for concrete runs: \<^verbatim>\<open>G\<close> is \<open>2^30\<close>, the time since the last update is
  rendered as a fixed text, and \<^verbatim>\<open>Comma\<close> as the plain decimal number, which is what
  \<^verbatim>\<open>humanize.Comma\<close> gives below 1000.
\<close>

definition plain_printer :: printer where
  "plain_printer = \<lparr>G = 1073741824, Comma = FormatInt, Since = (\<lambda>t. ''1h0m0s'')\<rparr>"

text \<open>
  An inventory for concrete runs: two hosts and four devices, of 500, 100 and 5000 GiB
  and one that has not reported yet; the third is dead, the fourth names no known host.
\<close>

definition sample_hosts :: "Host list" where
  "sample_hosts =
     [\<lparr>Host.Hostid = 1, Host.Hostname = ''alpha'', Host.Status = ''alive''\<rparr>,
      \<lparr>Host.Hostid = 2, Host.Hostname = ''beta'', Host.Status = ''alive''\<rparr>]"

definition sample_devices :: "Device list" where
  "sample_devices =
     [\<lparr>Devid = 3, Hostid = 2, Status = ''alive'', BytesTotal = Some 536870912000,
       BytesUsed = Some 178241142784, BytesFree = Some 358629769216,
       IoUtilization = Some 7, Device.UpdatedAt = 1500000000\<rparr>,
      \<lparr>Devid = 1, Hostid = 1, Status = ''alive'', BytesTotal = Some 107374182400,
       BytesUsed = Some 107374182400, BytesFree = Some 0,
       IoUtilization = None, Device.UpdatedAt = 1500000000\<rparr>,
      \<lparr>Devid = 2, Hostid = 1, Status = ''dead'', BytesTotal = Some 5368709120000,
       BytesUsed = Some 2684354560000, BytesFree = Some 2684354560000,
       IoUtilization = Some 0, Device.UpdatedAt = 1400000000\<rparr>,
      \<lparr>Devid = 4, Hostid = 9, Status = ''alive'', BytesTotal = None,
       BytesUsed = None, BytesFree = None,
       IoUtilization = None, Device.UpdatedAt = 1500000000\<rparr>]"

definition sample_registry :: registry where
  "sample_registry = \<lparr>get_devices = Inr sample_devices, get_hosts = Inr sample_hosts\<rparr>"

text \<open>The status view of that inventory, in its natural order.\<close>

definition sample_view :: "deviceStatus list" where
  "sample_view = natural_order sample_hosts sample_devices"

text \<open>
  Modelled from the spec: the sort types \<^verbatim>\<open>byHostname\<close>, \<^verbatim>\<open>byDevID\<close>, \<^verbatim>\<open>bySize\<close>,
  \<^verbatim>\<open>byUsed\<close> and \<^verbatim>\<open>byFree\<close> are not among the sources; the spec names the keys host
  name, device id, size, used and free. Each comparator here is \<open><\<close> on the named
  field (byte-wise on host names), an absent byte count counting as \<open>-1\<close>. They serve
  the concrete runs only: \<^verbatim>\<open>Status\<close> takes its comparators as they are given.
\<close>

definition sample_comparators :: comparators where
  "sample_comparators =
     \<lparr>byHostname = (\<lambda>a b. Hostname a < Hostname b),
      byDevID = (\<lambda>a b. Devid (Device a) < Devid (Device b)),
      bySize = (\<lambda>a b. case_option (- 1) id (BytesTotal (Device a)) < case_option (- 1) id (BytesTotal (Device b))),
      byUsed = (\<lambda>a b. case_option (- 1) id (BytesUsed (Device a)) < case_option (- 1) id (BytesUsed (Device b))),
      byFree = (\<lambda>a b. case_option (- 1) id (BytesFree (Device a)) < case_option (- 1) id (BytesFree (Device b)))\<rparr>"

text \<open>A device of 100 PB that is full, and one of 200 PB that is half full.\<close>

definition full_100PB :: deviceStatus where
  "full_100PB =
     \<lparr>Device = \<lparr>Devid = 1, Hostid = 1, Status = ''alive'', BytesTotal = Some 100000000000000000,
                 BytesUsed = Some 100000000000000000, BytesFree = Some 0,
                 IoUtilization = None, Device.UpdatedAt = 1500000000\<rparr>,
      Hostname = ''alpha'', HostStatus = ''alive'', UpdatedAt = 1500000000\<rparr>"

definition half_200PB :: deviceStatus where
  "half_200PB =
     \<lparr>Device = \<lparr>Devid = 1, Hostid = 1, Status = ''alive'', BytesTotal = Some 200000000000000000,
                 BytesUsed = Some 100000000000000000, BytesFree = Some 100000000000000000,
                 IoUtilization = None, Device.UpdatedAt = 1500000000\<rparr>,
      Hostname = ''alpha'', HostStatus = ''alive'', UpdatedAt = 1500000000\<rparr>"

text \<open>The device of the spec's scenario: 333 bytes used of 1000.\<close>

definition third_full :: deviceStatus where
  "third_full =
     \<lparr>Device = \<lparr>Devid = 1, Hostid = 1, Status = ''alive'', BytesTotal = Some 1000,
                 BytesUsed = Some 333, BytesFree = Some 667,
                 IoUtilization = None, Device.UpdatedAt = 1500000000\<rparr>,
      Hostname = ''alpha'', HostStatus = ''alive'', UpdatedAt = 1500000000\<rparr>"

section \<open>Classification of responses\<close>

text \<open>
  C3 (as stated, refuted): the claim says that \<^verbatim>\<open>checkResponseError\<close> returns nil exactly
  when the status equals the expected status. With status 500 and expected status 500
  the two are equal, and the function returns the server error.
\<close>

theorem checkResponseError_expected_500_counterexample:
  "StatusCode \<lparr>StatusCode = 500, Body = ''oops''\<rparr> = 500 \<and>
   checkResponseError \<lparr>StatusCode = 500, Body = ''oops''\<rparr> 500 = Some (ServerError 500 ''oops'')"
  by (simp add: checkResponseError_def)

text \<open>
  C3 (amended): for every response and expected status, \<^verbatim>\<open>checkResponseError\<close> returns
  a server error exactly when the status is at least 500, a client error exactly when
  the status is in [400, 500), an unexpected-status error exactly when the status is
  below 400 and differs from the expected status, and nil exactly when the status is
  below 400 and equals the expected status. The error carries the response's status
  and body.
\<close>

theorem checkResponseError_classes:
  "((\<exists>c b. checkResponseError resp expected = Some (ServerError c b)) = (500 \<le> StatusCode resp)) \<and>
   ((\<exists>c b. checkResponseError resp expected = Some (ClientError c b)) =
      (400 \<le> StatusCode resp \<and> StatusCode resp < 500)) \<and>
   ((\<exists>c b. checkResponseError resp expected = Some (UnexpectedStatus c b)) =
      (StatusCode resp < 400 \<and> StatusCode resp \<noteq> expected)) \<and>
   ((checkResponseError resp expected = None) =
      (StatusCode resp < 400 \<and> StatusCode resp = expected)) \<and>
   (\<forall>e. checkResponseError resp expected = Some e \<longrightarrow>
      e \<in> {ServerError (StatusCode resp) (Body resp), ClientError (StatusCode resp) (Body resp),
           UnexpectedStatus (StatusCode resp) (Body resp)})"
  by (auto simp: checkResponseError_def)

theorem checkResponseError_classes_witness:
  "checkResponseError \<lparr>StatusCode = 404, Body = ''gone''\<rparr> 200 = Some (ClientError 404 ''gone'') \<and>
   checkResponseError \<lparr>StatusCode = 200, Body = ''ok''\<rparr> 200 = None"
  using checkResponseError_classes [of "\<lparr>StatusCode = 404, Body = ''gone''\<rparr>" 200]
    checkResponseError_classes [of "\<lparr>StatusCode = 200, Body = ''ok''\<rparr>" 200]
  by (simp add: checkResponseError_def)

section \<open>The chunk loop, step by step\<close>

text \<open>One iteration of the loop, with the byte counter written out.\<close>

lemma read_bytes_chunk:
  "read_bytes (length (ReqBody (chunk_request c path sz rc))) rc = after_chunk c rc"
  by (simp add: read_bytes_def chunk_request_def after_chunk_def min_def)

lemma ReqBody_chunk_request [simp]:
  "ReqBody (chunk_request c path sz rc) = take (nat (ChunkSize c)) (Unread rc)"
  by (simp add: chunk_request_def)

lemma write_loop_step:
  "write_loop (Suc fuel) w c path sz i rc =
     (if \<not> parses w path then ([], Some (Count rc, Some (RequestError path)))
      else
        (case chunk_error w i (chunk_request c path sz rc) of
           Some err \<Rightarrow> ([chunk_request c path sz rc], Some (count_on_error w c path sz i rc, Some err))
         | None \<Rightarrow>
             if sz > -1 \<and> Count (after_chunk c rc) \<ge> sz
             then ([chunk_request c path sz rc], Some (Count (after_chunk c rc), None))
             else (chunk_request c path sz rc # fst (write_loop fuel w c path sz (Suc i) (after_chunk c rc)),
                   snd (write_loop fuel w c path sz (Suc i) (after_chunk c rc)))))"
  unfolding write_loop.simps Let_def read_bytes_chunk
  by (auto simp: chunk_error_def count_on_error_def
      split: sum.splits option.splits prod.splits)

declare write_loop.simps(2) [simp del]

lemma write_loop_headers:
  "j < length (fst (write_loop fuel w c path sz i rc)) \<Longrightarrow>
   Header (fst (write_loop fuel w c path sz i rc) ! j) =
     (''efes-file-offset'',
        FormatInt (Count rc + int (length (concat (map ReqBody (take j (fst (write_loop fuel w c path sz i rc)))))))) #
     (if sz > -1 then [(''efes-file-length'', FormatInt sz)] else [])"
proof (induction fuel arbitrary: i rc j)
  case 0
  then show ?case by simp
next
  case (Suc fuel)
  let ?req = "chunk_request c path sz rc"
  show ?case
  proof (cases j)
    case 0
    with Suc.prems show ?thesis
      by (auto simp: write_loop_step chunk_request_def split: if_splits option.splits)
  next
    case (Suc j')
    with Suc.prems have whole:
      "fst (write_loop (Suc fuel) w c path sz i rc) =
         ?req # fst (write_loop fuel w c path sz (Suc i) (after_chunk c rc))"
      by (auto simp: write_loop_step split: if_splits option.splits)
    from Suc.prems Suc whole
    have j': "j' < length (fst (write_loop fuel w c path sz (Suc i) (after_chunk c rc)))"
      by simp
    from Suc.IH [OF j'] show ?thesis
      unfolding whole Suc by (simp add: after_chunk_def add.assoc)
  qed
qed

lemma write_loop_known_size:
  assumes "0 < ChunkSize c" and "parses w path" and "acknowledges w" and "-1 < sz"
  shows "sz = Count rc + int (length (Unread rc)) \<Longrightarrow> Unread rc \<noteq> [] \<Longrightarrow>
         length (Unread rc) \<le> fuel \<Longrightarrow>
         snd (write_loop fuel w c path sz i rc) = Some (sz, None) \<and>
         concat (map ReqBody (fst (write_loop fuel w c path sz i rc))) = Unread rc \<and>
         [] \<notin> set (map ReqBody (fst (write_loop fuel w c path sz i rc)))"
proof (induction fuel arbitrary: i rc)
  case 0
  then show ?case by simp
next
  case (Suc fuel)
  let ?n = "nat (ChunkSize c)"
  let ?rc' = "after_chunk c rc"
  have ok: "chunk_error w i (chunk_request c path sz rc) = None"
    using assms(3) by (simp add: acknowledges_def)
  have npos: "0 < ?n" using assms(1) by simp
  have body: "take ?n (Unread rc) \<noteq> []"
    using npos Suc.prems(2) by (cases "Unread rc") (auto simp: take_Cons')
  show ?case
  proof (cases "Count ?rc' \<ge> sz")
    case True
    then have all: "take ?n (Unread rc) = Unread rc"
      using Suc.prems(1) by (simp add: after_chunk_def min_def split: if_splits)
    then have "Count ?rc' = sz"
      using Suc.prems(1) by (simp add: after_chunk_def)
    with True ok assms(2,4) all body show ?thesis
      by (simp add: write_loop_step)
  next
    case False
    then have short: "?n < length (Unread rc)"
      using Suc.prems(1) by (simp add: after_chunk_def min_def split: if_splits)
    have 1: "sz = Count ?rc' + int (length (Unread ?rc'))"
      using Suc.prems(1) short by (simp add: after_chunk_def min_def)
    have 2: "Unread ?rc' \<noteq> []" using short by (simp add: after_chunk_def)
    have 3: "length (Unread ?rc') \<le> fuel"
      using Suc.prems(3) short npos by (simp add: after_chunk_def)
    from Suc.IH [OF 1 2 3, of "Suc i"] False ok assms(2) body show ?thesis
      by (simp add: write_loop_step) (simp add: after_chunk_def)
  qed
qed

lemma write_loop_unknown_size_running:
  assumes "parses w path" and "acknowledges w" and "sz \<le> -1"
  shows "snd (write_loop fuel w c path sz i rc) = None \<and>
         length (fst (write_loop fuel w c path sz i rc)) = fuel"
  using assms
  by (induction fuel arbitrary: i rc) (simp_all add: write_loop_step acknowledges_def)

lemma write_loop_unknown_size_no_success:
  "sz \<le> -1 \<Longrightarrow> snd (write_loop fuel w c path sz i rc) \<noteq> Some (n, None)"
  by (induction fuel arbitrary: i rc) (simp_all add: write_loop_step split: option.splits)


lemma write_loop_success:
  "snd (write_loop fuel w c path sz i rc) = Some (n, None) \<Longrightarrow>
     n = Count rc + int (length (concat (map ReqBody (fst (write_loop fuel w c path sz i rc))))) \<and>
     (\<forall>j < length (fst (write_loop fuel w c path sz i rc)).
        chunk_error w (i + j) (fst (write_loop fuel w c path sz i rc) ! j) = None)"
proof (induction fuel arbitrary: i rc)
  case 0
  then show ?case by simp
next
  case (Suc fuel)
  let ?req = "chunk_request c path sz rc"
  from Suc.prems have p: "parses w path" and ok: "chunk_error w i ?req = None"
    by (auto simp: write_loop_step split: if_splits option.splits)
  show ?case
  proof (cases "sz > -1 \<and> Count (after_chunk c rc) \<ge> sz")
    case True
    with Suc.prems p ok show ?thesis
      by (simp add: write_loop_step after_chunk_def)
  next
    case False
    let ?rest = "write_loop fuel w c path sz (Suc i) (after_chunk c rc)"
    from False p ok have whole:
      "write_loop (Suc fuel) w c path sz i rc = (?req # fst ?rest, snd ?rest)"
      by (auto simp: write_loop_step)
    with Suc.prems have "snd ?rest = Some (n, None)" by simp
    from Suc.IH [OF this]
    have n: "n = Count (after_chunk c rc) + int (length (concat (map ReqBody (fst ?rest))))"
      and rest: "\<forall>j < length (fst ?rest). chunk_error w (Suc i + j) (fst ?rest ! j) = None"
      by blast+
    have "chunk_error w (i + j) ((?req # fst ?rest) ! j) = None"
      if "j < length (?req # fst ?rest)" for j
    proof (cases j)
      case 0
      with ok show ?thesis by simp
    next
      case (Suc j')
      with that rest show ?thesis by simp
    qed
    with n show ?thesis
      unfolding whole by (simp add: after_chunk_def)
  qed
qed

lemma write_loop_failure:
  "j < length (fst (write_loop fuel w c path sz i rc)) \<Longrightarrow>
   chunk_error w (i + j) (fst (write_loop fuel w c path sz i rc) ! j) = Some e \<Longrightarrow>
   \<exists>n. snd (write_loop fuel w c path sz i rc) = Some (n, Some e)"
proof (induction fuel arbitrary: i rc j)
  case 0
  then show ?case by simp
next
  case (Suc fuel)
  let ?req = "chunk_request c path sz rc"
  let ?rest = "write_loop fuel w c path sz (Suc i) (after_chunk c rc)"
  show ?case
  proof (cases j)
    case 0
    with Suc.prems show ?thesis
      by (auto simp: write_loop_step split: if_splits option.splits)
  next
    case (Suc j')
    with Suc.prems(1) have whole:
      "write_loop (Suc fuel) w c path sz i rc = (?req # fst ?rest, snd ?rest)"
      by (auto simp: write_loop_step split: if_splits option.splits)
    from Suc.prems Suc have "j' < length (fst ?rest)"
      and "chunk_error w (Suc i + j') (fst ?rest ! j') = Some e"
      unfolding whole by simp_all
    from Suc.IH [OF this] show ?thesis
      unfolding whole by simp
  qed
qed

lemma patches_append [simp]: "patches (evs @ evs') = patches evs @ patches evs'"
  by (induction evs rule: patches.induct) simp_all

lemma patches_map_Patch [simp]: "patches (map Patch reqs) = reqs"
  by (induction reqs) simp_all

lemma commits_append [simp]: "commits (evs @ evs') = commits evs @ commits evs'"
  by (induction evs rule: commits.induct) simp_all

lemma commits_map_Patch [simp]: "commits (map Patch reqs) = []"
  by (induction reqs) simp_all

lemma acknowledges_acking_world: "acknowledges acking_world"
  by (simp add: acknowledges_def chunk_error_def acking_world_def checkResponseError_def)

section \<open>The chunked upload\<close>

text \<open>
  C1 (as stated, refuted): the claim says that with a known size the loop never issues
  a PATCH request with an empty body, in particular not for size 0. The loop sends a
  request before it looks at the byte count, so for an empty file of declared size 0
  the session consists of exactly one PATCH request, and its body is empty.
\<close>

theorem write_empty_file_counterexample:
  "client_write 1 acking_world \<lparr>ChunkSize = 1024\<rparr> ''/dev1/42'' 0 [] =
     ([\<lparr>Method = ''PATCH'', URL = ''/dev1/42'',
        Header = [(''efes-file-offset'', ''0''), (''efes-file-length'', ''0'')],
        ReqBody = []\<rparr>],
      Some (0, None))"
  by (simp add: client_write_def newReadCounter_def write_loop_step chunk_error_def
      acking_world_def checkResponseError_def chunk_request_def after_chunk_def FormatInt_def
      format_nat.simps)

text \<open>
  C1 (amended): for every upload session with a known declared size \<open>N \<ge> 0\<close> whose
  input holds exactly \<open>N\<close> bytes, with a positive chunk size, a path that parses and a
  device that acknowledges every chunk with status 200: the loop returns (within
  \<open>N + 1\<close> iterations) the byte count \<open>N\<close> and a nil error, and the bodies of the
  requests it issued, in order, are the input. For \<open>N > 0\<close> no request has an empty
  body, so the loop stopped with the request that brought the count to \<open>N\<close>; for
  \<open>N = 0\<close> exactly one request is issued and its body is empty.
\<close>

theorem write_known_size:
  assumes "0 < ChunkSize c" and "parses w path" and "acknowledges w"
    and "sz = int (length r)" and "length r < fuel"
  shows "snd (client_write fuel w c path sz r) = Some (sz, None) \<and>
         concat (map ReqBody (fst (client_write fuel w c path sz r))) = r \<and>
         (if r = [] then map ReqBody (fst (client_write fuel w c path sz r)) = [[]]
          else [] \<notin> set (map ReqBody (fst (client_write fuel w c path sz r))))"
proof (cases "r = []")
  case True
  from assms(5) obtain fuel' where "fuel = Suc fuel'" by (cases fuel) simp_all
  with True assms(2,3,4) show ?thesis
    by (simp add: client_write_def newReadCounter_def write_loop_step acknowledges_def
        after_chunk_def)
next
  case False
  have "-1 < sz" using assms(4) by simp
  from write_loop_known_size [OF assms(1,2,3) this, of "newReadCounter r" fuel 0] assms(4,5) False
  show ?thesis
    by (simp add: client_write_def newReadCounter_def)
qed

theorem write_known_size_witness:
  "snd (client_write 4 acking_world \<lparr>ChunkSize = 2\<rparr> ''/dev1/42'' 3 ''abc'') = Some (3, None) \<and>
   map ReqBody (fst (client_write 4 acking_world \<lparr>ChunkSize = 2\<rparr> ''/dev1/42'' 3 ''abc'')) = [''ab'', ''c''] \<and>
   map ReqBody (fst (client_write 4 acking_world \<lparr>ChunkSize = 2\<rparr> ''/dev1/42'' 0 [])) = [[]]"
proof -
  have p: "parses acking_world ''/dev1/42''" by (simp add: acking_world_def)
  have "map ReqBody (fst (client_write 4 acking_world \<lparr>ChunkSize = 2\<rparr> ''/dev1/42'' 3 ''abc'')) = [''ab'', ''c'']"
    by (simp add: client_write_def newReadCounter_def write_loop_step chunk_error_def
      acking_world_def checkResponseError_def after_chunk_def eval_nat_numeral)
  with write_known_size [of "\<lparr>ChunkSize = 2\<rparr>" acking_world "''/dev1/42''" 3 "''abc''" 4]
    write_known_size [of "\<lparr>ChunkSize = 2\<rparr>" acking_world "''/dev1/42''" 0 "[]" 4]
    p acknowledges_acking_world
  show ?thesis by simp
qed

text \<open>
  C2: the claim says that with an unknown size (declared as -1) the loop ends with the
  first short or empty read and returns the byte count. The only exit of the loop
  without an error is guarded by \<^verbatim>\<open>size > -1\<close>: with size -1 the loop never returns a
  nil error in any world, and against a device that acknowledges every chunk it has not
  returned after any number of iterations, each of which issued one more request.
\<close>

theorem write_unknown_size_never_returns:
  "snd (client_write fuel acking_world c path (- 1) r) = None \<and>
   length (fst (client_write fuel acking_world c path (- 1) r)) = fuel \<and>
   snd (client_write fuel w c path (- 1) r) \<noteq> Some (n, None)"
  using write_loop_unknown_size_running [of acking_world path "- 1" fuel c 0 "newReadCounter r"]
    write_loop_unknown_size_no_success [of "- 1" fuel w c path 0 "newReadCounter r" n]
    acknowledges_acking_world
  by (simp add: client_write_def) (simp add: acking_world_def)

theorem write_unknown_size_never_returns_witness:
  "client_write 4 acking_world \<lparr>ChunkSize = 2\<rparr> ''/dev1/42'' (- 1) ''abc'' =
     ([\<lparr>Method = ''PATCH'', URL = ''/dev1/42'', Header = [(''efes-file-offset'', ''0'')], ReqBody = ''ab''\<rparr>,
       \<lparr>Method = ''PATCH'', URL = ''/dev1/42'', Header = [(''efes-file-offset'', ''2'')], ReqBody = ''c''\<rparr>,
       \<lparr>Method = ''PATCH'', URL = ''/dev1/42'', Header = [(''efes-file-offset'', ''3'')], ReqBody = []\<rparr>,
       \<lparr>Method = ''PATCH'', URL = ''/dev1/42'', Header = [(''efes-file-offset'', ''3'')], ReqBody = []\<rparr>],
      None)"
proof -
  have "fst (client_write 4 acking_world \<lparr>ChunkSize = 2\<rparr> ''/dev1/42'' (- 1) ''abc'') =
     [\<lparr>Method = ''PATCH'', URL = ''/dev1/42'', Header = [(''efes-file-offset'', ''0'')], ReqBody = ''ab''\<rparr>,
       \<lparr>Method = ''PATCH'', URL = ''/dev1/42'', Header = [(''efes-file-offset'', ''2'')], ReqBody = ''c''\<rparr>,
       \<lparr>Method = ''PATCH'', URL = ''/dev1/42'', Header = [(''efes-file-offset'', ''3'')], ReqBody = []\<rparr>,
       \<lparr>Method = ''PATCH'', URL = ''/dev1/42'', Header = [(''efes-file-offset'', ''3'')], ReqBody = []\<rparr>]"
    by (simp add: client_write_def newReadCounter_def write_loop_step chunk_error_def
      acking_world_def checkResponseError_def after_chunk_def eval_nat_numeral chunk_request_def
      FormatInt_def format_nat.simps)
  with write_unknown_size_never_returns [of 4 "\<lparr>ChunkSize = 2\<rparr>" "''/dev1/42''" "''abc''"]
  show ?thesis by (simp add: prod_eq_iff)
qed

text \<open>
  C7: every chunk request of a session (number \<open>j\<close>, within any number of iterations
  and whatever the device answers) carries the header efes-file-offset with the
  number of bytes in the bodies of the requests before it, and carries the header
  efes-file-length, with the declared size, exactly when the declared size is at
  least 0.
\<close>

theorem write_chunk_headers:
  assumes "j < length (fst (client_write fuel w c path sz r))"
  shows "map_of (Header (fst (client_write fuel w c path sz r) ! j)) ''efes-file-offset'' =
           Some (FormatInt (int (length (concat (map ReqBody
                   (take j (fst (client_write fuel w c path sz r)))))))) \<and>
         map_of (Header (fst (client_write fuel w c path sz r) ! j)) ''efes-file-length'' =
           (if sz \<ge> 0 then Some (FormatInt sz) else None)"
  using write_loop_headers [of j fuel w c path sz 0 "newReadCounter r"] assms
  by (simp add: client_write_def newReadCounter_def)

theorem write_chunk_headers_witness:
  "map_of (Header (fst (client_write 4 acking_world \<lparr>ChunkSize = 2\<rparr> ''/dev1/42'' 3 ''abc'') ! 1))
      ''efes-file-offset'' = Some ''2'' \<and>
   map_of (Header (fst (client_write 4 acking_world \<lparr>ChunkSize = 2\<rparr> ''/dev1/42'' 3 ''abc'') ! 1))
      ''efes-file-length'' = Some ''3'' \<and>
   map_of (Header (fst (client_write 4 acking_world \<lparr>ChunkSize = 2\<rparr> ''/dev1/42'' (- 1) ''abc'') ! 1))
      ''efes-file-length'' = None"
proof -
  have 1: "map ReqBody (fst (client_write 4 acking_world \<lparr>ChunkSize = 2\<rparr> ''/dev1/42'' 3 ''abc'')) = [''ab'', ''c'']"
    by (simp add: client_write_def newReadCounter_def write_loop_step chunk_error_def
      acking_world_def checkResponseError_def after_chunk_def eval_nat_numeral)
  have 2: "length (fst (client_write 4 acking_world \<lparr>ChunkSize = 2\<rparr> ''/dev1/42'' (- 1) ''abc'')) = 4"
    by (simp add: client_write_def newReadCounter_def write_loop_step chunk_error_def
      acking_world_def checkResponseError_def after_chunk_def eval_nat_numeral)
  from 1 have 3: "length (fst (client_write 4 acking_world \<lparr>ChunkSize = 2\<rparr> ''/dev1/42'' 3 ''abc'')) = 2"
    by (metis length_map length_Cons list.size(3) numeral_2_eq_2)
  from 1 have 4: "concat (map ReqBody (take 1 (fst (client_write 4 acking_world \<lparr>ChunkSize = 2\<rparr> ''/dev1/42'' 3 ''abc'')))) = ''ab''"
    by (simp add: take_map [symmetric])
  from write_chunk_headers [of 1 4 acking_world "\<lparr>ChunkSize = 2\<rparr>" "''/dev1/42''" 3 "''abc''"]
    write_chunk_headers [of 1 4 acking_world "\<lparr>ChunkSize = 2\<rparr>" "''/dev1/42''" "- 1" "''abc''"]
    2 3 4
  show ?thesis
    by (simp add: FormatInt_def format_nat.simps)
qed

section \<open>Commit after upload\<close>

lemma createOpen_events: "fst (createOpen w sz) = [TrackerCall (createOpen_call sz)]"
  by (simp add: createOpen_def request_def createOpen_call_def Let_def split: sum.splits option.splits)

lemma createClose_eq:
  "createClose w key n fid devid =
     ([TrackerCall (createClose_call key n fid devid)],
      call_error w (createClose_call key n fid devid))"
  by (simp add: createClose_def request_def createClose_call_def call_error_def Let_def
      split: sum.splits option.splits)

lemma getPaths_events: "fst (getPaths w key) = [TrackerCall (getPaths_call key)]"
  by (simp add: getPaths_def request_def getPaths_call_def Let_def split: sum.splits option.splits)

lemma write_loop_unparsed:
  "\<not> parses w path \<Longrightarrow> 0 < fuel \<Longrightarrow>
   write_loop fuel w c path sz i rc = ([], Some (Count rc, Some (RequestError path)))"
  by (cases fuel) (simp_all add: write_loop_step)

lemma CallPath_createOpen [simp]: "CallPath (createOpen_call sz) = ''create-open''"
  by (simp add: createOpen_call_def)

lemma CallPath_createClose [simp]:
  "CallPath (createClose_call key n fid devid) = ''create-close''"
  by (simp add: createClose_call_def)


text \<open>
  C6: for every run of \<^verbatim>\<open>Write\<close>, with the events its callees issued and its result:
  when it returns nil a commit (create-close) was issued. A commit, when issued, is the
  only one and the last request; it is the create-close request for the key, for the
  number of bytes sent in the bodies of the chunk requests, and for the file and device
  identifiers that create-open returned; every chunk request before it was
  acknowledged; and \<^verbatim>\<open>Write\<close> returns what the tracker answered to it. When the chunk
  loop returns the count \<open>n\<close> without an error, the commit carries \<open>n\<close>, which is that
  number of bytes (and need not be the declared size). When a chunk request fails, or
  the chunk loop returns an error for any reason (a chunk request that cannot be built
  among them), \<^verbatim>\<open>Write\<close> returns that error and no commit is issued.
\<close>

theorem Write_commits_bytes_sent:
  assumes W: "Write fuel w c key path = (evs, res)"
  shows "(res = Some None \<longrightarrow> commits evs \<noteq> []) \<and>
    (\<forall>cl \<in> set (commits evs).
       commits evs = [cl] \<and> last evs = TrackerCall cl \<and>
       (\<exists>f sz opened. open_source w path = Inr (f, sz) \<and> snd (createOpen w sz) = Inr opened \<and>
          cl = createClose_call key (int (length (concat (map ReqBody (patches evs)))))
                 (Fid opened) (CreateOpen.Devid opened)) \<and>
       map_of (CallParams cl) ''key'' = Some key \<and>
       map_of (CallParams cl) ''size'' =
         Some (FormatInt (int (length (concat (map ReqBody (patches evs)))))) \<and>
       (\<forall>j < length (patches evs). chunk_error w j (patches evs ! j) = None) \<and>
       res = Some (call_error w cl)) \<and>
    (\<forall>f sz opened n. open_source w path = Inr (f, sz) \<longrightarrow> snd (createOpen w sz) = Inr opened \<longrightarrow>
       snd (client_write fuel w c (Path opened) sz f) = Some (n, None) \<longrightarrow>
       n = int (length (concat (map ReqBody (patches evs)))) \<and>
       commits evs = [createClose_call key n (Fid opened) (CreateOpen.Devid opened)]) \<and>
    (\<forall>j e. j < length (patches evs) \<longrightarrow> chunk_error w j (patches evs ! j) = Some e \<longrightarrow>
       res = Some (Some e) \<and> commits evs = []) \<and>
    (\<forall>f sz opened n e. open_source w path = Inr (f, sz) \<longrightarrow> snd (createOpen w sz) = Inr opened \<longrightarrow>
       snd (client_write fuel w c (Path opened) sz f) = Some (n, Some e) \<longrightarrow>
       res = Some (Some e) \<and> commits evs = []) \<and>
    (\<forall>f sz opened. open_source w path = Inr (f, sz) \<longrightarrow> snd (createOpen w sz) = Inr opened \<longrightarrow>
       \<not> parses w (Path opened) \<longrightarrow> 0 < fuel \<longrightarrow>
       evs = [TrackerCall (createOpen_call sz)] \<and> res = Some (Some (RequestError (Path opened))))"
    (is "?C1 \<and> ?C2 \<and> ?C3 \<and> ?C4 \<and> ?C5 \<and> ?C6")
proof (cases "open_source w path")
  case (Inl err)
  with W have "evs = []" and "res = Some (Some err)"
    by (auto simp: Write_def)
  with Inl show ?thesis by simp
next
  case (Inr src)
  obtain f sz where src: "src = (f, sz)" by (cases src)
  note source = Inr [unfolded src]
  obtain ro where co: "createOpen w sz = ([TrackerCall (createOpen_call sz)], ro)"
    using createOpen_events [of w sz] by (cases "createOpen w sz") simp
  show ?thesis
  proof (cases ro)
    case (Inl err)
    with W source co have evs: "evs = [TrackerCall (createOpen_call sz)]"
      and res: "res = Some (Some err)"
      by (auto simp: Write_def)
    have ?C1 and ?C2 and ?C4 unfolding evs res by simp_all
    moreover have ?C3 and ?C5 and ?C6 by (simp_all add: source co Inl)
    ultimately show ?thesis by (intro conjI)
  next
    case opened: (Inr opened)
    obtain reqs r where cw: "client_write fuel w c (Path opened) sz f = (reqs, r)"
      by (cases "client_write fuel w c (Path opened) sz f")
    then have wl: "write_loop fuel w c (Path opened) sz 0 (newReadCounter f) = (reqs, r)"
      by (simp add: client_write_def)
    have unparsed: "reqs = [] \<and> r = Some (0, Some (RequestError (Path opened)))"
      if "\<not> parses w (Path opened)" "0 < fuel"
      using write_loop_unparsed [OF that, of c sz 0 "newReadCounter f"] wl
      by (simp add: newReadCounter_def)
    show ?thesis
    proof (cases r)
      case None
      with W source co opened cw have evs: "evs = TrackerCall (createOpen_call sz) # map Patch reqs"
        and res: "res = None"
        by (auto simp: Write_def)
      have nofail: "\<not> (j < length reqs \<and> chunk_error w j (reqs ! j) = Some e)" for j e
        using write_loop_failure [of j fuel w c "Path opened" sz 0 "newReadCounter f" e] wl None
        by auto
      have ?C1 and ?C2 unfolding evs res by simp_all
      moreover have ?C3 and ?C5 by (simp_all add: source co opened cw None)
      moreover have ?C4 unfolding evs res using nofail by simp
      moreover have ?C6 using unparsed None by (auto simp: source co opened)
      ultimately show ?thesis by (intro conjI)
    next
      case (Some ne)
      obtain n e where ne: "ne = (n, e)" by (cases ne)
      note r = Some [unfolded ne]
      show ?thesis
      proof (cases e)
        case None
        let ?cc = "createClose_call key n (Fid opened) (CreateOpen.Devid opened)"
        from W source co opened cw r None have
          evs: "evs = TrackerCall (createOpen_call sz) # map Patch reqs @ [TrackerCall ?cc]"
          and res: "res = Some (call_error w ?cc)"
          by (auto simp: Write_def createClose_eq)
        from write_loop_success [of fuel w c "Path opened" sz 0 "newReadCounter f" n] wl r None
        have n: "n = int (length (concat (map ReqBody reqs)))"
          and ok: "\<forall>j < length reqs. chunk_error w j (reqs ! j) = None"
          by (simp_all add: newReadCounter_def)
        have p: "patches evs = reqs" and cm: "commits evs = [?cc]" and l: "last evs = TrackerCall ?cc"
          unfolding evs by simp_all
        have ex: "\<exists>f sz opened. open_source w path = Inr (f, sz) \<and> snd (createOpen w sz) = Inr opened \<and>
          ?cc = createClose_call key (int (length (concat (map ReqBody reqs))))
                 (Fid opened) (CreateOpen.Devid opened)"
          using source co opened n by auto
        have ?C1 unfolding cm by simp
        moreover have ?C2
          unfolding cm p using l ex ok res n by (simp add: createClose_call_def)
        moreover have ?C3
          unfolding cm p using n by (simp add: source co opened cw r None)
        moreover have ?C4 unfolding p using ok by simp
        moreover have ?C5 by (simp add: source co opened cw r None)
        moreover have ?C6 using unparsed r None by (auto simp: source co opened)
        ultimately show ?thesis by (intro conjI)
      next
        case (Some err)
        with W source co opened cw r have
          evs: "evs = TrackerCall (createOpen_call sz) # map Patch reqs"
          and res: "res = Some (Some err)"
          by (auto simp: Write_def)
        have same: "e' = err" if "j < length reqs" "chunk_error w j (reqs ! j) = Some e'" for j e'
          using write_loop_failure [of j fuel w c "Path opened" sz 0 "newReadCounter f" e'] wl
            r Some that
          by auto
        have p: "patches evs = reqs" and cm: "commits evs = []"
          unfolding evs by simp_all
        have ?C1 unfolding res by simp
        moreover have ?C2 unfolding cm by simp
        moreover have ?C3 by (simp add: source co opened cw r Some)
        moreover have ?C4 unfolding p cm res using same by auto
        moreover have ?C5 unfolding cm res by (simp add: source co opened cw r Some)
        moreover have ?C6
          unfolding evs res using unparsed r Some by (auto simp: source co opened)
        ultimately show ?thesis by (intro conjI)
      qed
    qed
  qed
qed

lemma sample_open_source:
  "open_source acking_world ''f'' = Inr (''abcde'', 3)"
  "open_source refusing_world ''f'' = Inr (''abcde'', 3)"
  "open_source full_world ''f'' = Inr (''abcde'', 3)"
  "open_source unparsed_world ''f'' = Inr (''abcde'', 3)"
  by (simp_all add: open_source_def acking_world_def refusing_world_def full_world_def
      unparsed_world_def)

lemma sample_createOpen:
  "createOpen acking_world 3 = ([TrackerCall (createOpen_call 3)], Inr reserved)"
  "createOpen refusing_world 3 = ([TrackerCall (createOpen_call 3)], Inr reserved)"
  "createOpen full_world 3 = ([TrackerCall (createOpen_call 3)], Inr reserved)"
  "createOpen unparsed_world 3 = ([TrackerCall (createOpen_call 3)], Inr reserved)"
  by (simp_all add: createOpen_def request_def createOpen_call_def checkResponseError_def
      acking_world_def refusing_world_def full_world_def unparsed_world_def)

lemma sample_createClose:
  "createClose acking_world ''k'' 4 42 1 = ([TrackerCall (createClose_call ''k'' 4 42 1)], None)"
  "createClose refusing_world ''k'' 4 42 1 =
     ([TrackerCall (createClose_call ''k'' 4 42 1)], Some (ServerError 500 ''no''))"
  by (simp_all add: createClose_eq call_error_def checkResponseError_def
      acking_world_def refusing_world_def)

lemma sample_client_write:
  "client_write 4 acking_world \<lparr>ChunkSize = 2\<rparr> ''/dev1/42'' 3 ''abcde'' =
     ([chunk_request \<lparr>ChunkSize = 2\<rparr> ''/dev1/42'' 3 \<lparr>Unread = ''abcde'', Count = 0\<rparr>,
       chunk_request \<lparr>ChunkSize = 2\<rparr> ''/dev1/42'' 3 \<lparr>Unread = ''cde'', Count = 2\<rparr>],
      Some (4, None))"
  "client_write 4 refusing_world \<lparr>ChunkSize = 2\<rparr> ''/dev1/42'' 3 ''abcde'' =
     ([chunk_request \<lparr>ChunkSize = 2\<rparr> ''/dev1/42'' 3 \<lparr>Unread = ''abcde'', Count = 0\<rparr>,
       chunk_request \<lparr>ChunkSize = 2\<rparr> ''/dev1/42'' 3 \<lparr>Unread = ''cde'', Count = 2\<rparr>],
      Some (4, None))"
  "client_write 4 full_world \<lparr>ChunkSize = 2\<rparr> ''/dev1/42'' 3 ''abcde'' =
     ([chunk_request \<lparr>ChunkSize = 2\<rparr> ''/dev1/42'' 3 \<lparr>Unread = ''abcde'', Count = 0\<rparr>,
       chunk_request \<lparr>ChunkSize = 2\<rparr> ''/dev1/42'' 3 \<lparr>Unread = ''cde'', Count = 2\<rparr>],
      Some (2, Some (ServerError 507 ''full'')))"
  "client_write 4 unparsed_world \<lparr>ChunkSize = 2\<rparr> ''/dev1/42'' 3 ''abcde'' =
     ([], Some (0, Some (RequestError ''/dev1/42'')))"
  by (simp_all add: client_write_def newReadCounter_def write_loop_step chunk_error_def
      count_on_error_def read_bytes_def after_chunk_def checkResponseError_def eval_nat_numeral
      acking_world_def refusing_world_def full_world_def unparsed_world_def)

theorem Write_commits_bytes_sent_witness:
  "Write 4 acking_world \<lparr>ChunkSize = 2\<rparr> ''k'' ''f'' =
     ([TrackerCall (createOpen_call 3),
       Patch (chunk_request \<lparr>ChunkSize = 2\<rparr> ''/dev1/42'' 3 \<lparr>Unread = ''abcde'', Count = 0\<rparr>),
       Patch (chunk_request \<lparr>ChunkSize = 2\<rparr> ''/dev1/42'' 3 \<lparr>Unread = ''cde'', Count = 2\<rparr>),
       TrackerCall (createClose_call ''k'' 4 42 1)], Some None) \<and>
   map_of (CallParams (createOpen_call 3)) ''size'' = Some ''3'' \<and>
   map_of (CallParams (createClose_call ''k'' 4 42 1)) ''size'' = Some ''4'' \<and>
   Write 4 refusing_world \<lparr>ChunkSize = 2\<rparr> ''k'' ''f'' =
     ([TrackerCall (createOpen_call 3),
       Patch (chunk_request \<lparr>ChunkSize = 2\<rparr> ''/dev1/42'' 3 \<lparr>Unread = ''abcde'', Count = 0\<rparr>),
       Patch (chunk_request \<lparr>ChunkSize = 2\<rparr> ''/dev1/42'' 3 \<lparr>Unread = ''cde'', Count = 2\<rparr>),
       TrackerCall (createClose_call ''k'' 4 42 1)], Some (Some (ServerError 500 ''no''))) \<and>
   Write 4 full_world \<lparr>ChunkSize = 2\<rparr> ''k'' ''f'' =
     ([TrackerCall (createOpen_call 3),
       Patch (chunk_request \<lparr>ChunkSize = 2\<rparr> ''/dev1/42'' 3 \<lparr>Unread = ''abcde'', Count = 0\<rparr>),
       Patch (chunk_request \<lparr>ChunkSize = 2\<rparr> ''/dev1/42'' 3 \<lparr>Unread = ''cde'', Count = 2\<rparr>)],
      Some (Some (ServerError 507 ''full''))) \<and>
   Write 4 unparsed_world \<lparr>ChunkSize = 2\<rparr> ''k'' ''f'' =
     ([TrackerCall (createOpen_call 3)], Some (Some (RequestError ''/dev1/42'')))"
proof -
  note run = Write_def sample_open_source sample_createOpen sample_client_write
    sample_createClose reserved_def
  have 1: "Write 4 acking_world \<lparr>ChunkSize = 2\<rparr> ''k'' ''f'' =
     ([TrackerCall (createOpen_call 3),
       Patch (chunk_request \<lparr>ChunkSize = 2\<rparr> ''/dev1/42'' 3 \<lparr>Unread = ''abcde'', Count = 0\<rparr>),
       Patch (chunk_request \<lparr>ChunkSize = 2\<rparr> ''/dev1/42'' 3 \<lparr>Unread = ''cde'', Count = 2\<rparr>),
       TrackerCall (createClose_call ''k'' 4 42 1)], Some None)"
    by (simp add: run)
  have 2: "Write 4 refusing_world \<lparr>ChunkSize = 2\<rparr> ''k'' ''f'' =
     ([TrackerCall (createOpen_call 3),
       Patch (chunk_request \<lparr>ChunkSize = 2\<rparr> ''/dev1/42'' 3 \<lparr>Unread = ''abcde'', Count = 0\<rparr>),
       Patch (chunk_request \<lparr>ChunkSize = 2\<rparr> ''/dev1/42'' 3 \<lparr>Unread = ''cde'', Count = 2\<rparr>),
       TrackerCall (createClose_call ''k'' 4 42 1)], Some (Some (ServerError 500 ''no'')))"
    by (simp add: run)
  have 3: "Write 4 full_world \<lparr>ChunkSize = 2\<rparr> ''k'' ''f'' =
     ([TrackerCall (createOpen_call 3),
       Patch (chunk_request \<lparr>ChunkSize = 2\<rparr> ''/dev1/42'' 3 \<lparr>Unread = ''abcde'', Count = 0\<rparr>),
       Patch (chunk_request \<lparr>ChunkSize = 2\<rparr> ''/dev1/42'' 3 \<lparr>Unread = ''cde'', Count = 2\<rparr>)],
      Some (Some (ServerError 507 ''full'')))"
    by (simp add: run)
  have 4: "Write 4 unparsed_world \<lparr>ChunkSize = 2\<rparr> ''k'' ''f'' =
     ([TrackerCall (createOpen_call 3)], Some (Some (RequestError ''/dev1/42'')))"
    by (simp add: run)
  have 5: "map_of (CallParams (createOpen_call 3)) ''size'' = Some ''3''"
    "map_of (CallParams (createClose_call ''k'' 4 42 1)) ''size'' = Some ''4''"
    by (simp_all add: createOpen_call_def createClose_call_def FormatInt_def format_nat.simps)
  from Write_commits_bytes_sent [OF 1] 1 2 3 4 5
  show ?thesis by simp
qed

section \<open>Read\<close>

text \<open>
  C10: for every call \<^verbatim>\<open>Read(key, dest)\<close> with a destination other than \<open>''-''\<close>:
  if the destination file is created, then the tracker had returned a non-empty path list
  and the fetch had passed the check against 200, and the creation is the third event,
  after the tracker request and the fetch; and if path resolution fails, yields no
  path, or the fetch fails or has a status other than 200, then \<^verbatim>\<open>Read\<close> returns an
  error and nothing creates, writes or closes the destination.
\<close>

theorem Read_creates_after_checks:
  assumes "Read w key path = (evs, res)" and "path \<noteq> ''-''"
  shows "(CreateFile p \<in> set evs \<longrightarrow>
            p = path \<and> fetch_checked w key \<and>
            (\<exists>u. take 3 evs = [TrackerCall (getPaths_call key), Get u, CreateFile path])) \<and>
         (\<not> fetch_checked w key \<longrightarrow>
            res \<noteq> None \<and> \<not> (\<exists>ev \<in> set evs. touches_destination ev))"
proof -
  obtain r where g: "getPaths w key = ([TrackerCall (getPaths_call key)], r)"
    using getPaths_events [of w key] by (cases "getPaths w key") simp
  from assms show ?thesis
    by (auto simp: Read_def g fetch_checked_def checkResponseError_def
        split: sum.splits list.splits option.splits if_splits)
qed

theorem Read_creates_after_checks_witness:
  "Read missing_world ''k'' ''out'' =
     ([TrackerCall (getPaths_call ''k''), Get ''/dev1/42''], Some (ClientError 404 ''gone'')) \<and>
   \<not> fetch_checked missing_world ''k'' \<and>
   Read acking_world ''k'' ''out'' =
     ([TrackerCall (getPaths_call ''k''), Get ''/dev1/42'', CreateFile ''out'',
       CopyTo ''out'' ''data'', CloseFile ''out''], None) \<and>
   fetch_checked acking_world ''k''"
proof -
  note defs = Read_def getPaths_def getPaths_call_def request_def Let_def checkResponseError_def
  have 1: "Read missing_world ''k'' ''out'' =
     ([TrackerCall (getPaths_call ''k''), Get ''/dev1/42''], Some (ClientError 404 ''gone''))"
    by (simp add: defs missing_world_def acking_world_def)
  have 2: "Read acking_world ''k'' ''out'' =
     ([TrackerCall (getPaths_call ''k''), Get ''/dev1/42'', CreateFile ''out'',
       CopyTo ''out'' ''data'', CloseFile ''out''], None)"
    by (simp add: defs acking_world_def)
  have 3: "\<not> fetch_checked missing_world ''k''"
    by (simp add: fetch_checked_def defs missing_world_def acking_world_def)
  from Read_creates_after_checks [OF 2, of "''out''"] Read_creates_after_checks [OF 1, of "''out''"] 1 2 3
  show ?thesis by simp
qed

section \<open>Arithmetic in \<^verbatim>\<open>int64\<close>\<close>

lemma i64_id: "- (2 ^ 63) \<le> x \<Longrightarrow> x < 2 ^ 63 \<Longrightarrow> i64 x = x"
  by (simp add: i64_def)

lemma i64_0 [simp]: "i64 0 = 0"
  by (simp add: i64_def)

lemma i64_add_left: "i64 (i64 a + b) = i64 (a + b)"
proof -
  have "i64 (i64 a + b) = ((a + 2 ^ 63) mod 2 ^ 64 + b) mod 2 ^ 64 - 2 ^ 63"
    by (simp add: i64_def)
  also have "\<dots> = ((a + 2 ^ 63) + b) mod 2 ^ 64 - 2 ^ 63"
    by (simp only: mod_add_left_eq)
  also have "(a + 2 ^ 63) + b = a + b + (2 ^ 63 :: int)"
    by simp
  finally show ?thesis
    by (simp add: i64_def)
qed

lemma quot_nonneg: "0 \<le> a \<Longrightarrow> 0 < b \<Longrightarrow> quot a b = a div b"
  by (simp add: quot_def)

lemma div_abs_le: "0 < b \<Longrightarrow> \<bar>a\<bar> div b \<le> \<bar>a :: int\<bar>"
  by (metis abs_ge_zero int_div_le_self div_0 order_le_less)

lemma abs_quot_le:
  assumes "0 < b"
  shows "\<bar>quot a b\<bar> \<le> \<bar>a\<bar>"
proof -
  define X where "X = \<bar>a\<bar> div b"
  have 1: "0 \<le> X"
    using assms by (simp add: X_def pos_imp_zdiv_nonneg_iff)
  have 2: "X \<le> \<bar>a\<bar>"
    unfolding X_def by (rule div_abs_le [OF assms])
  have "quot a b = X \<or> quot a b = - X"
    using assms by (simp add: quot_def X_def)
  with 1 2 show ?thesis by arith
qed

lemma i64_quot: "0 < b \<Longrightarrow> - (2 ^ 63) < a \<Longrightarrow> a < 2 ^ 63 \<Longrightarrow> i64 (quot a b) = quot a b"
  using abs_quot_le [of b a] by (intro i64_id) arith+

lemma div_le_100:
  assumes "0 \<le> u" and "u \<le> t" and "0 < (t::int)"
  shows "0 \<le> (u * 100) div t \<and> (u * 100) div t \<le> 100"
proof -
  have "(u * 100) div t \<le> (t * 100) div t"
    using assms by (intro zdiv_mono1) simp_all
  also have "\<dots> = 100" using assms by simp
  finally have "(u * 100) div t \<le> 100" .
  moreover have "0 \<le> (u * 100) div t"
    using assms by (simp add: pos_imp_zdiv_nonneg_iff)
  ultimately show ?thesis by simp
qed

section \<open>The sums of the first loop\<close>

lemma foldl_totals:
  "foldl (\<lambda>(totalUsed, totalSize) d.
              ((case BytesUsed (Device d) of None \<Rightarrow> totalUsed | Some u \<Rightarrow> i64 (totalUsed + u)),
               (case BytesTotal (Device d) of None \<Rightarrow> totalSize | Some t \<Rightarrow> i64 (totalSize + t))))
       (i64 a, i64 b) ds =
     (i64 (a + sum_list (used_bytes ds)), i64 (b + sum_list (total_bytes ds)))"
proof (induction ds arbitrary: a b)
  case Nil
  then show ?case by (simp add: used_bytes_def total_bytes_def map_filter_simps)
next
  case (Cons d ds)
  show ?case
    using Cons.IH [of "case BytesUsed (Device d) of None \<Rightarrow> a | Some u \<Rightarrow> a + u"
                       "case BytesTotal (Device d) of None \<Rightarrow> b | Some t \<Rightarrow> b + t"]
    by (simp add: used_bytes_def total_bytes_def map_filter_simps i64_add_left add.assoc
        split: option.splits)
qed

lemma sum_totals_sums:
  "sum_totals ds = (i64 (sum_list (used_bytes ds)), i64 (sum_list (total_bytes ds)))"
  using foldl_totals [of 0 0 ds] by (simp add: sum_totals_def)

lemma sum_list_map_filter_mset:
  "mset xs = mset ys \<Longrightarrow> sum_list (List.map_filter f xs) = (sum_list (List.map_filter f ys) :: int)"
proof -
  assume eq: "mset xs = mset ys"
  have "mset (List.map_filter f xs) = image_mset (the \<circ> f) (filter_mset (\<lambda>x. f x \<noteq> None) (mset xs))" for xs
    by (simp add: map_filter_def)
  with eq have "mset (List.map_filter f xs) = mset (List.map_filter f ys)" by simp
  then show ?thesis by (metis sum_mset_sum_list)
qed

lemma used_bytes_Device: "used_bytes ds = List.map_filter BytesUsed (map Device ds)"
  by (induction ds) (simp_all add: used_bytes_def map_filter_simps split: option.splits)

lemma total_bytes_Device: "total_bytes ds = List.map_filter BytesTotal (map Device ds)"
  by (induction ds) (simp_all add: total_bytes_def map_filter_simps split: option.splits)

lemma sum_totals_mset:
  assumes "mset (map Device ds) = mset devs"
  shows "sum_totals ds = (i64 (sum_list (List.map_filter BytesUsed devs)),
                          i64 (sum_list (List.map_filter BytesTotal devs)))"
  unfolding sum_totals_sums used_bytes_Device total_bytes_Device
  using sum_list_map_filter_mset [OF assms, of BytesUsed]
    sum_list_map_filter_mset [OF assms, of BytesTotal]
  by simp

lemma table_footer_sums:
  assumes "\<forall>u \<in> set (used_bytes ds). 0 \<le> u" and "\<forall>t \<in> set (total_bytes ds). 0 \<le> t"
    and "100 * sum_list (used_bytes ds) < 2 ^ 63" and "sum_list (total_bytes ds) < 2 ^ 63"
    and "0 < G pr"
  shows "table_footer pr (sum_totals ds) =
     [[], [], [], ''Total:'',
      Comma pr (sum_list (total_bytes ds) div G pr),
      Comma pr (sum_list (used_bytes ds) div G pr),
      Comma pr (quot (sum_list (total_bytes ds) - sum_list (used_bytes ds)) (G pr)),
      FormatInt (if sum_list (total_bytes ds) = 0 then 0
                 else (100 * sum_list (used_bytes ds)) div sum_list (total_bytes ds)),
      [], []]"
proof -
  define U where "U = sum_list (used_bytes ds)"
  define T where "T = sum_list (total_bytes ds)"
  have U0: "0 \<le> U" unfolding U_def using assms(1) by (intro sum_list_nonneg) simp
  have T0: "0 \<le> T" unfolding T_def using assms(2) by (intro sum_list_nonneg) simp
  have U1: "100 * U < 2 ^ 63" and T1: "T < 2 ^ 63" using assms(3,4) by (simp_all add: U_def T_def)
  have iU: "i64 U = U" using U0 U1 by (intro i64_id) simp_all
  have iT: "i64 T = T" using T0 T1 by (intro i64_id) simp_all
  have iF: "i64 (T - U) = T - U" using U0 U1 T0 T1 by (intro i64_id) simp_all
  have i100: "i64 (100 * U) = 100 * U" using U0 U1 by (intro i64_id) simp_all
  have gU: "i64 (quot U (G pr)) = U div G pr"
    using i64_quot [OF assms(5), of U] quot_nonneg [OF U0 assms(5)] U0 U1 by simp
  have gT: "i64 (quot T (G pr)) = T div G pr"
    using i64_quot [OF assms(5), of T] quot_nonneg [OF T0 assms(5)] T0 T1 by simp
  have gF: "i64 (quot (T - U) (G pr)) = quot (T - U) (G pr)"
    using U0 U1 T0 T1 by (intro i64_quot [OF assms(5)]) simp_all
  have use: "i64 (quot (100 * U) T) = (100 * U) div T" if "T \<noteq> 0"
  proof -
    from that T0 have Tpos: "0 < T" by simp
    have q: "quot (100 * U) T = (100 * U) div T"
      using U0 Tpos by (intro quot_nonneg) simp_all
    have "0 \<le> (100 * U) div T" using U0 Tpos by (simp add: pos_imp_zdiv_nonneg_iff)
    moreover have "(100 * U) div T \<le> 100 * U"
      using U0 Tpos by (metis int_div_le_self div_0 mult_nonneg_nonneg order_le_less zero_le_numeral)
    ultimately have "i64 ((100 * U) div T) = (100 * U) div T"
      using U1 by (intro i64_id) simp_all
    with q show ?thesis by simp
  qed
  show ?thesis
    unfolding sum_totals_sums table_footer_def U_def [symmetric] T_def [symmetric]
    using iU iT iF i100 gU gT gF use by (simp add: Let_def)
qed

section \<open>Rows, joins and the sort\<close>

lemma row_cells: "row pr d = Inr r \<Longrightarrow> length r = 10 \<and> r ! 3 = Status (Device d)"
  by (auto simp: row_def split: sum.splits)

lemma table_rows_cells:
  "table_rows pr ds = Inr rs \<Longrightarrow>
     length rs = length ds \<and> (\<forall>r \<in> set rs. \<exists>d \<in> set ds. row pr d = Inr r)"
  by (induction ds arbitrary: rs) (auto split: sum.splits)

lemma mset_insert_by: "mset (insert_by lt x xs) = add_mset x (mset xs)"
  by (induction xs) simp_all

lemma mset_sort_Sort: "mset (sort_Sort lt xs) = mset xs"
  unfolding sort_Sort_def by (induction xs) (simp_all add: mset_insert_by)

lemma set_insert_by: "set (insert_by lt x xs) = insert x (set xs)"
  using mset_insert_by [of lt x xs, THEN arg_cong, of set_mset] by simp

lemma sorted_insert_by:
  assumes "strict_weak_order lt"
  shows "sorted_wrt (\<lambda>a b. \<not> lt b a) xs \<Longrightarrow> sorted_wrt (\<lambda>a b. \<not> lt b a) (insert_by lt x xs)"
proof (induction xs)
  case Nil
  then show ?case by simp
next
  case (Cons y ys)
  from assms have asym: "\<And>a b. lt a b \<Longrightarrow> \<not> lt b a"
    and trans: "\<And>a b c. \<not> lt b a \<Longrightarrow> \<not> lt c b \<Longrightarrow> \<not> lt c a"
    unfolding strict_weak_order_def by blast+
  show ?case
  proof (cases "lt y x")
    case True
    with Cons asym show ?thesis
      by (auto simp: set_insert_by)
  next
    case False
    with Cons.prems trans show ?thesis
      by auto
  qed
qed

lemma sorted_sort_Sort:
  "strict_weak_order lt \<Longrightarrow> sorted_wrt (\<lambda>a b. \<not> lt b a) (sort_Sort lt xs)"
  unfolding sort_Sort_def by (induction xs) (simp_all add: sorted_insert_by)

lemma foldl_live_devices:
  "foldl (\<lambda>ret d. if Status d = ''dead'' then ret else ret @ [join_host byID d]) acc devs =
     acc @ map (join_host byID) (not_dead devs)"
  by (induction devs arbitrary: acc) (simp_all add: not_dead_def)

lemma live_devices_natural: "live_devices (hostsByID hosts) devs = natural_order hosts devs"
  by (simp add: live_devices_def natural_order_def foldl_live_devices)

lemma Device_join_host [simp]: "Device (join_host byID d) = d"
  by (simp add: join_host_def split: option.splits)

lemma Device_natural_order: "map Device (natural_order hosts devs) = not_dead devs"
  by (simp add: natural_order_def comp_def)

lemma Client_Status_ok:
  assumes "get_devices reg = Inr devs" and "get_hosts reg = Inr hosts"
  shows "Client_Status reg cmp sortBy =
     (if sortBy \<in> set sort_keys
      then ([], Inr \<lparr>devices = sort_Sort (comparator_for cmp sortBy) (natural_order hosts devs)\<rparr>)
      else ([''Sort key is not valid: '' @ sortBy], Inr \<lparr>devices = natural_order hosts devs\<rparr>))"
  using assms
  by (simp add: Client_Status_def live_devices_natural sort_keys_def comparator_for_def Let_def)

section \<open>The sample inventory\<close>

lemma sample_view_eq:
  "sample_view =
     [\<lparr>Device = sample_devices ! 0, Hostname = ''beta'', HostStatus = ''alive'', UpdatedAt = 1500000000\<rparr>,
      \<lparr>Device = sample_devices ! 1, Hostname = ''alpha'', HostStatus = ''alive'', UpdatedAt = 1500000000\<rparr>,
      \<lparr>Device = sample_devices ! 3, Hostname = [], HostStatus = [], UpdatedAt = 1500000000\<rparr>]"
  by (simp add: sample_view_def natural_order_def not_dead_def join_host_def hostsByID_def
      sample_devices_def sample_hosts_def)

lemma Print_sample_view:
  "Print plain_printer \<lparr>devices = sample_view\<rparr> =
     Inr \<lparr>Heading = [''Host'', ''Status'', ''Device'', ''Status'', ''Size (G)'',
                     ''Used (G)'', ''Free (G)'', ''Use %'', ''IO %'', ''Last update''],
          Footer = [[], [], [], ''Total:'', ''600'', ''266'', ''334'', ''44'', [], []],
          Rows = [[''beta'', ''alive'', ''3'', ''alive'', ''500'', ''166'', ''334'', ''33'', ''7'', ''1h0m0s''],
                  [''alpha'', ''alive'', ''1'', ''alive'', ''100'', ''100'', ''0'', ''100'', [], ''1h0m0s''],
                  [[], [], ''4'', ''alive'', [], [], [], [], [], ''1h0m0s'']]\<rparr>"
  unfolding sample_view_eq
  by (simp add: Print_def table_footer_def sum_totals_def row_def Use_def Size_def Used_def
      Free_def IO_def plain_printer_def sample_devices_def i64_def quot_def FormatInt_def
      format_nat.simps Let_def)

lemma sort_sample_by_device:
  "map (\<lambda>d. Devid (Device d)) (sort_Sort (byDevID sample_comparators) sample_view) = [1, 3, 4]"
  unfolding sample_view_eq
  by (simp add: sort_Sort_def sample_comparators_def sample_devices_def)

lemma sort_sample_by_used:
  "sort_Sort (byUsed sample_comparators) sample_view =
     [sample_view ! 2, sample_view ! 1, sample_view ! 0]"
  unfolding sample_view_eq
  by (simp add: sort_Sort_def sample_comparators_def sample_devices_def)

section \<open>Usage of one device\<close>

text \<open>
  C5 (as stated, refuted): the claim gives every device with used and total present,
  \<open>used \<le> total\<close> and \<open>total > 0\<close> a percentage in [0, 100] equal to the truncation
  of \<open>used * 100 / total\<close>. The product is computed in \<^verbatim>\<open>int64\<close>: for a full device of
  \<open>10^17\<close> bytes it wraps around, and the device is rendered as \<open>-84\<close> per cent, not 100.
\<close>

theorem Use_overflow_counterexample:
  "BytesUsed (Device full_100PB) = Some 100000000000000000 \<and>
   BytesTotal (Device full_100PB) = Some 100000000000000000 \<and>
   Use full_100PB = Inr ''-84''"
  by (simp add: full_100PB_def Use_def i64_def quot_def FormatInt_def format_nat.simps)

text \<open>
  C5 (amended): for every device with used and total present, \<open>0 \<le> used \<le> total\<close>,
  \<open>total > 0\<close> and \<open>used * 100 < 2^63\<close>, the rendered usage is the decimal number
  \<open>(used * 100) div total\<close> (truncation and floor agree on these values), which lies in
  [0, 100]; when used or total is absent the usage is rendered as the empty string.
\<close>

theorem Use_percentage:
  "(\<forall>u t. BytesUsed (Device d) = Some u \<and> BytesTotal (Device d) = Some t \<and>
          0 \<le> u \<and> u \<le> t \<and> 0 < t \<and> u * 100 < 2 ^ 63 \<longrightarrow>
          Use d = Inr (FormatInt ((u * 100) div t)) \<and>
          0 \<le> (u * 100) div t \<and> (u * 100) div t \<le> 100) \<and>
   (BytesUsed (Device d) = None \<or> BytesTotal (Device d) = None \<longrightarrow> Use d = Inr [])"
proof (intro conjI allI impI)
  fix u t
  assume h: "BytesUsed (Device d) = Some u \<and> BytesTotal (Device d) = Some t \<and>
          0 \<le> u \<and> u \<le> t \<and> 0 < t \<and> u * 100 < 2 ^ 63"
  then have b: "0 \<le> (u * 100) div t \<and> (u * 100) div t \<le> 100"
    by (intro div_le_100) simp_all
  from h have 1: "i64 (u * 100) = u * 100" by (intro i64_id) simp_all
  from h have 2: "quot (u * 100) t = (u * 100) div t" by (intro quot_nonneg) simp_all
  from b have 3: "i64 ((u * 100) div t) = (u * 100) div t" by (intro i64_id) simp_all
  from h 1 2 3 show "Use d = Inr (FormatInt ((u * 100) div t))"
    by (simp add: Use_def)
  from b show "0 \<le> (u * 100) div t" and "(u * 100) div t \<le> 100" by simp_all
next
  assume "BytesUsed (Device d) = None \<or> BytesTotal (Device d) = None"
  then show "Use d = Inr []"
    by (auto simp: Use_def split: option.splits)
qed

theorem Use_percentage_witness:
  "Use third_full = Inr ''33'' \<and>
   Use (third_full\<lparr>Device := (Device third_full)\<lparr>BytesUsed := None\<rparr>\<rparr>) = Inr []"
  using Use_percentage [of third_full]
    Use_percentage [of "third_full\<lparr>Device := (Device third_full)\<lparr>BytesUsed := None\<rparr>\<rparr>"]
  by (simp add: third_full_def FormatInt_def format_nat.simps)

section \<open>Totals of the cluster\<close>

text \<open>
  C4 (as stated, refuted): the claim gives the footer of every device list the usage
  \<open>floor(100 * sum(used) / sum(total))\<close>. The product is computed in \<^verbatim>\<open>int64\<close>: for a
  cluster with \<open>10^17\<close> bytes used of \<open>2 * 10^17\<close> it wraps around, and the footer shows
  \<open>-42\<close> per cent where the sums give 50.
\<close>

theorem Print_overflow_counterexample:
  "map_sum id (\<lambda>tbl. Footer tbl ! 7) (Print plain_printer \<lparr>devices = [half_200PB]\<rparr>) = Inr ''-42'' \<and>
   (100 * sum_list (used_bytes [half_200PB])) div sum_list (total_bytes [half_200PB]) = 50"
  by (simp add: Print_def table_footer_def sum_totals_def half_200PB_def Use_def row_def
      used_bytes_def total_bytes_def map_filter_simps
      i64_def quot_def FormatInt_def format_nat.simps Let_def)

lemma Use_renders:
  "BytesUsed (Device d) = None \<or> BytesTotal (Device d) \<noteq> Some 0 \<Longrightarrow> \<exists>u. Use d = Inr u"
  by (auto simp: Use_def split: option.splits)

lemma table_rows_render:
  "\<forall>d \<in> set ds. BytesUsed (Device d) = None \<or> BytesTotal (Device d) \<noteq> Some 0 \<Longrightarrow>
   \<exists>rs. table_rows pr ds = Inr rs \<and> length rs = length ds"
proof (induction ds)
  case Nil
  then show ?case by simp
next
  case (Cons d ds)
  then obtain u where "Use d = Inr u" using Use_renders [of d] by auto
  then obtain r where r: "row pr d = Inr r" by (simp add: row_def)
  from Cons obtain rs where "table_rows pr ds = Inr rs" "length rs = length ds" by auto
  with r show ?case by simp
qed

text \<open>
  C4 (amended): for every device list of the status view whose present byte counts are
  not negative and for which \<open>100 * sum(used)\<close> and \<open>sum(total)\<close> are below \<open>2^63\<close>,
  with a positive \<^verbatim>\<open>G\<close>, the footer \<^verbatim>\<open>Print\<close> computes shows the total capacity and
  the total used as the sums of the byte counts that are present (an absent one adds
  nothing), divided by \<^verbatim>\<open>G\<close>, the free bytes as their difference divided by \<^verbatim>\<open>G\<close>,
  and the usage \<open>(100 * sum(used)) div sum(total)\<close>, 0 when the capacity sum is 0:
  computed from the sums, not from the devices' percentages. \<^verbatim>\<open>Print\<close> renders a table
  with this footer and one row for each device whenever no device with its used bytes
  present reports a total of 0, and every table it renders has this footer.
\<close>

theorem Print_totals:
  assumes "\<forall>u \<in> set (used_bytes ds). 0 \<le> u" and "\<forall>t \<in> set (total_bytes ds). 0 \<le> t"
    and "100 * sum_list (used_bytes ds) < 2 ^ 63" and "sum_list (total_bytes ds) < 2 ^ 63"
    and "0 < G pr"
  shows "table_footer pr (sum_totals ds) =
     [[], [], [], ''Total:'',
      Comma pr (sum_list (total_bytes ds) div G pr),
      Comma pr (sum_list (used_bytes ds) div G pr),
      Comma pr (quot (sum_list (total_bytes ds) - sum_list (used_bytes ds)) (G pr)),
      FormatInt (if sum_list (total_bytes ds) = 0 then 0
                 else (100 * sum_list (used_bytes ds)) div sum_list (total_bytes ds)),
      [], []] \<and>
    ((\<forall>d \<in> set ds. BytesUsed (Device d) = None \<or> BytesTotal (Device d) \<noteq> Some 0) \<longrightarrow>
       (\<exists>tbl. Print pr \<lparr>devices = ds\<rparr> = Inr tbl \<and> length (Rows tbl) = length ds)) \<and>
    (\<forall>tbl. Print pr \<lparr>devices = ds\<rparr> = Inr tbl \<longrightarrow>
       Footer tbl = table_footer pr (sum_totals ds))"
proof (intro conjI impI allI)
  show "table_footer pr (sum_totals ds) =
     [[], [], [], ''Total:'',
      Comma pr (sum_list (total_bytes ds) div G pr),
      Comma pr (sum_list (used_bytes ds) div G pr),
      Comma pr (quot (sum_list (total_bytes ds) - sum_list (used_bytes ds)) (G pr)),
      FormatInt (if sum_list (total_bytes ds) = 0 then 0
                 else (100 * sum_list (used_bytes ds)) div sum_list (total_bytes ds)),
      [], []]"
    by (rule table_footer_sums [OF assms])
next
  assume "\<forall>d \<in> set ds. BytesUsed (Device d) = None \<or> BytesTotal (Device d) \<noteq> Some 0"
  from table_rows_render [OF this, of pr]
  show "\<exists>tbl. Print pr \<lparr>devices = ds\<rparr> = Inr tbl \<and> length (Rows tbl) = length ds"
    by (auto simp: Print_def Let_def)
next
  fix tbl
  assume "Print pr \<lparr>devices = ds\<rparr> = Inr tbl"
  then show "Footer tbl = table_footer pr (sum_totals ds)"
    by (auto simp: Print_def Let_def split: sum.splits)
qed

theorem Print_totals_witness:
  "Print plain_printer \<lparr>devices = sample_view\<rparr> =
     Inr \<lparr>Heading = [''Host'', ''Status'', ''Device'', ''Status'', ''Size (G)'',
                     ''Used (G)'', ''Free (G)'', ''Use %'', ''IO %'', ''Last update''],
          Footer = [[], [], [], ''Total:'', ''600'', ''266'', ''334'', ''44'', [], []],
          Rows = [[''beta'', ''alive'', ''3'', ''alive'', ''500'', ''166'', ''334'', ''33'', ''7'', ''1h0m0s''],
                  [''alpha'', ''alive'', ''1'', ''alive'', ''100'', ''100'', ''0'', ''100'', [], ''1h0m0s''],
                  [[], [], ''4'', ''alive'', [], [], [], [], [], ''1h0m0s'']]\<rparr> \<and>
   used_bytes sample_view = [178241142784, 107374182400] \<and>
   total_bytes sample_view = [536870912000, 107374182400]"
proof -
  have u: "used_bytes sample_view = [178241142784, 107374182400]"
    unfolding sample_view_eq by (simp add: used_bytes_def map_filter_simps sample_devices_def)
  have t: "total_bytes sample_view = [536870912000, 107374182400]"
    unfolding sample_view_eq by (simp add: total_bytes_def map_filter_simps sample_devices_def)
  have 1: "\<forall>u \<in> set (used_bytes sample_view). 0 \<le> u" by (simp add: u)
  have 2: "\<forall>t \<in> set (total_bytes sample_view). 0 \<le> t" by (simp add: t)
  have 3: "100 * sum_list (used_bytes sample_view) < 2 ^ 63" by (simp add: u)
  have 4: "sum_list (total_bytes sample_view) < 2 ^ 63" by (simp add: t)
  have 5: "0 < G plain_printer" by (simp add: plain_printer_def)
  from Print_totals [OF 1 2 3 4 5] Print_sample_view u t
  show ?thesis by simp
qed

section \<open>Sort keys\<close>

text \<open>
  C8: when both inventory requests succeed, \<^verbatim>\<open>Status\<close> succeeds for every sort key.
  For one of the keys host, device, size, used and free it logs nothing and returns a
  permutation of the devices in their natural order that is ascending by the
  comparator of that key (no device is less than one before it), provided the
  comparator is a strict weak order; for any other string it logs the warning and
  returns the devices in their natural order.
\<close>

theorem Status_sort_key:
  assumes "get_devices reg = Inr devs" and "get_hosts reg = Inr hosts"
  shows "(sortBy \<in> set sort_keys \<longrightarrow>
            (\<exists>sorted. Client_Status reg cmp sortBy = ([], Inr \<lparr>devices = sorted\<rparr>) \<and>
               mset sorted = mset (natural_order hosts devs) \<and>
               (strict_weak_order (comparator_for cmp sortBy) \<longrightarrow>
                  sorted_wrt (\<lambda>a b. \<not> comparator_for cmp sortBy b a) sorted))) \<and>
         (sortBy \<notin> set sort_keys \<longrightarrow>
            Client_Status reg cmp sortBy =
              ([''Sort key is not valid: '' @ sortBy], Inr \<lparr>devices = natural_order hosts devs\<rparr>))"
  using Client_Status_ok [OF assms, of cmp sortBy]
  by (simp add: mset_sort_Sort sorted_sort_Sort)

theorem Status_sort_key_witness:
  "fst (Client_Status sample_registry sample_comparators ''device'') = [] \<and>
   map_sum id (\<lambda>st. map (\<lambda>d. Devid (Device d)) (devices st))
     (snd (Client_Status sample_registry sample_comparators ''device'')) = Inr [1, 3, 4] \<and>
   Client_Status sample_registry sample_comparators ''bogus'' =
     ([''Sort key is not valid: bogus''], Inr \<lparr>devices = sample_view\<rparr>) \<and>
   map (\<lambda>d. Devid (Device d)) sample_view = [3, 1, 4]"
proof -
  have d: "get_devices sample_registry = Inr sample_devices"
    and h: "get_hosts sample_registry = Inr sample_hosts"
    by (simp_all add: sample_registry_def)
  have swo: "strict_weak_order (comparator_for sample_comparators ''device'')"
    by (auto simp: strict_weak_order_def comparator_for_def sample_comparators_def)
  have v: "map (\<lambda>d. Devid (Device d)) sample_view = [3, 1, 4]"
    unfolding sample_view_eq by (simp add: sample_devices_def)
  have "Client_Status sample_registry sample_comparators ''device'' =
      ([], Inr \<lparr>devices = sort_Sort (byDevID sample_comparators) sample_view\<rparr>)"
    by (simp add: Client_Status_def d h live_devices_natural sample_view_def)
  with Status_sort_key [OF d h, of "''device''" sample_comparators]
    Status_sort_key [OF d h, of "''bogus''" sample_comparators] swo v sort_sample_by_device
  show ?thesis
    by (simp add: sort_keys_def sample_view_def)
qed

section \<open>Dead devices\<close>

text \<open>
  C9: for every devices response, the status that \<^verbatim>\<open>Status\<close> returns holds exactly
  the devices of the response that are not dead (as a multiset: the sort may reorder
  them); the totals \<^verbatim>\<open>Print\<close> sums over it are the sums over the non-dead devices of
  the response, so are the footer computed from them and the number of rows, and no
  row has \<open>dead\<close> in its device status column.
\<close>

theorem Status_excludes_dead:
  assumes "Client_Status reg cmp sortBy = (lg, Inr st)" and "get_devices reg = Inr devs"
  shows "mset (map Device (devices st)) = mset (not_dead devs) \<and>
    (\<forall>d \<in> set (devices st). Status (Device d) \<noteq> ''dead'') \<and>
    sum_totals (devices st) =
       (i64 (sum_list (List.map_filter BytesUsed (not_dead devs))),
        i64 (sum_list (List.map_filter BytesTotal (not_dead devs)))) \<and>
    (\<forall>tbl. Print pr st = Inr tbl \<longrightarrow>
       Footer tbl = table_footer pr
          (i64 (sum_list (List.map_filter BytesUsed (not_dead devs))),
           i64 (sum_list (List.map_filter BytesTotal (not_dead devs)))) \<and>
       length (Rows tbl) = length (not_dead devs) \<and>
       (\<forall>r \<in> set (Rows tbl). r ! 3 \<noteq> ''dead''))"
proof -
  from assms obtain hosts where hosts: "get_hosts reg = Inr hosts"
    by (auto simp: Client_Status_def split: sum.splits)
  from Client_Status_ok [OF assms(2) hosts, of cmp sortBy] assms(1)
  have "devices st = sort_Sort (comparator_for cmp sortBy) (natural_order hosts devs) \<or>
        devices st = natural_order hosts devs"
    by (auto split: if_splits)
  then have "mset (devices st) = mset (natural_order hosts devs)"
    by (auto simp: mset_sort_Sort)
  then have m: "mset (map Device (devices st)) = mset (not_dead devs)"
    by (metis Device_natural_order mset_map)
  have live: "Status (Device d) \<noteq> ''dead''" if "d \<in> set (devices st)" for d
  proof -
    from that have "Device d \<in> set (map Device (devices st))" by simp
    then have "Device d \<in> set (not_dead devs)"
      using m by (metis set_mset_mset)
    then show ?thesis by (simp add: not_dead_def)
  qed
  note totals = sum_totals_mset [OF m]
  have tbl: "Footer tbl = table_footer pr
          (i64 (sum_list (List.map_filter BytesUsed (not_dead devs))),
           i64 (sum_list (List.map_filter BytesTotal (not_dead devs)))) \<and>
       length (Rows tbl) = length (not_dead devs) \<and>
       (\<forall>r \<in> set (Rows tbl). r ! 3 \<noteq> ''dead'')" if "Print pr st = Inr tbl" for tbl
  proof -
    from that have f: "Footer tbl = table_footer pr (sum_totals (devices st))"
      and r: "table_rows pr (devices st) = Inr (Rows tbl)"
      by (auto simp: Print_def Let_def split: sum.splits)
    from table_rows_cells [OF r] have len: "length (Rows tbl) = length (devices st)"
      and cells: "\<forall>r \<in> set (Rows tbl). \<exists>d \<in> set (devices st). row pr d = Inr r"
      by blast+
    have "length (devices st) = length (not_dead devs)"
      using m by (metis length_map size_mset)
    moreover have "r ! 3 \<noteq> ''dead''" if "r \<in> set (Rows tbl)" for r
      using cells that live row_cells by metis
    ultimately show ?thesis using f len totals by simp
  qed
  from m live totals tbl show ?thesis by blast
qed

theorem Status_excludes_dead_witness:
  "Client_Status sample_registry sample_comparators ''used'' =
     ([], Inr \<lparr>devices = [sample_view ! 2, sample_view ! 1, sample_view ! 0]\<rparr>) \<and>
   map Devid sample_devices = [3, 1, 2, 4] \<and>
   map Devid (not_dead sample_devices) = [3, 1, 4] \<and>
   map_sum id (\<lambda>tbl. (Footer tbl, map (\<lambda>r. (r ! 2, r ! 3)) (Rows tbl)))
     (Print plain_printer \<lparr>devices = [sample_view ! 2, sample_view ! 1, sample_view ! 0]\<rparr>) =
     Inr ([[], [], [], ''Total:'', ''600'', ''266'', ''334'', ''44'', [], []],
          [(''4'', ''alive''), (''1'', ''alive''), (''3'', ''alive'')])"
proof -
  have d: "get_devices sample_registry = Inr sample_devices"
    and h: "get_hosts sample_registry = Inr sample_hosts"
    by (simp_all add: sample_registry_def)
  have 1: "Client_Status sample_registry sample_comparators ''used'' =
     ([], Inr \<lparr>devices = [sample_view ! 2, sample_view ! 1, sample_view ! 0]\<rparr>)"
    by (simp add: Client_Status_def d h live_devices_natural sample_view_def [symmetric]
        sort_sample_by_used)
  have 2: "map Devid (not_dead sample_devices) = [3, 1, 4]"
    and 3: "map Devid sample_devices = [3, 1, 2, 4]"
    by (simp_all add: not_dead_def sample_devices_def)
  have 4: "map_sum id (\<lambda>tbl. (Footer tbl, map (\<lambda>r. (r ! 2, r ! 3)) (Rows tbl)))
     (Print plain_printer \<lparr>devices = [sample_view ! 2, sample_view ! 1, sample_view ! 0]\<rparr>) =
     Inr ([[], [], [], ''Total:'', ''600'', ''266'', ''334'', ''44'', [], []],
          [(''4'', ''alive''), (''1'', ''alive''), (''3'', ''alive'')])"
    unfolding sample_view_eq
    by (simp add: Print_def table_footer_def sum_totals_def row_def Use_def Size_def Used_def
      Free_def IO_def plain_printer_def sample_devices_def i64_def quot_def FormatInt_def
      format_nat.simps Let_def)
  from Status_excludes_dead [OF 1 d, of plain_printer] 1 2 3 4
  show ?thesis by simp
qed

end
